theory Spec2Isabelle
  imports Main "HOL-Library.Sublist"
begin

section \<open>Python exceptions\<close>

text \<open>
  The exception classes the modelled modules raise, catch or let through. An exception
  is a value: a function that can raise returns \<open>exn + 'a\<close>, with \<open>Inl\<close> for the
  raised exception. Asynchronous interrupts (\<open>KeyboardInterrupt\<close>, \<open>SystemExit\<close>)
  are not part of the model.
\<close>

datatype exn =
    OverflowError string
  | OSError string
  | FileNotFoundError
  | TimeoutExpired
  | PermissionError
  | ValueError string
  | RuntimeError string
  | AttributeError string
  | IndexError
  | Exception string

text \<open>\<open>except OSError\<close> (of which \<open>socket.error\<close> is an alias) catches the class and
  its subclasses.\<close>

fun is_OSError :: "exn \<Rightarrow> bool" where
  "is_OSError (OSError _) = True"
| "is_OSError FileNotFoundError = True"
| "is_OSError PermissionError = True"
| "is_OSError _ = False"


text \<open>\<open>str(e)\<close> for an exception: its message.\<close>

fun exn_str :: "exn \<Rightarrow> string" where
  "exn_str (OverflowError m) = m"
| "exn_str (OSError m) = m"
| "exn_str FileNotFoundError = ''[Errno 2] No such file or directory''"
| "exn_str TimeoutExpired = ''Command timed out''"
| "exn_str PermissionError = ''[Errno 13] Permission denied''"
| "exn_str (ValueError m) = m"
| "exn_str (RuntimeError m) = m"
| "exn_str (AttributeError m) = m"
| "exn_str IndexError = ''list index out of range''"
| "exn_str (Exception m) = m"

section \<open>Python strings and ranges\<close>

text \<open>
  The string operations of Python the modules use, on \<open>string\<close> (a list of characters).
  \<open>str\<close> is \<open>str(n)\<close> and the \<open>{n}\<close> of an f-string for an integer: decimal digits,
  with a leading minus sign for a negative number.
\<close>

definition digit_char :: "nat \<Rightarrow> char" where
  "digit_char d = ''0123456789'' ! d"

fun decimal :: "nat \<Rightarrow> string" where
  "decimal n = (if n < 10 then [digit_char n] else decimal (n div 10) @ [digit_char (n mod 10)])"

declare decimal.simps [simp del]

definition str :: "int \<Rightarrow> string" where
  "str i = (if i < 0 then CHR ''-'' # decimal (nat (- i)) else decimal (nat i))"

text \<open>\<open>range(n)\<close> for an integer \<open>n\<close>: empty when \<open>n \<le> 0\<close>.\<close>

definition py_range :: "int \<Rightarrow> int list" where
  "py_range n = map int [0..<nat n]"

text \<open>
  \<open>s.split(sep)\<close>: the pieces between the occurrences of \<open>sep\<close>, found from the left
  and not overlapping. Python raises \<open>ValueError\<close> for an empty separator; every call
  in the modules passes a non-empty one, and the model then returns \<open>[s]\<close>.
\<close>

function split_from :: "'a list \<Rightarrow> 'a list \<Rightarrow> 'a list \<Rightarrow> 'a list list" where
  "split_from sep piece [] = [piece]"
| "split_from sep piece (c # cs) =
     (if sep \<noteq> [] \<and> prefix sep (c # cs)
      then piece # split_from sep [] (drop (length sep) (c # cs))
      else split_from sep (piece @ [c]) cs)"
  by pat_completeness auto
termination
  by (relation "measure (\<lambda>(sep, piece, s). length s)") auto

definition str_split :: "string \<Rightarrow> string \<Rightarrow> string list" where
  "str_split s sep = split_from sep [] s"

text \<open>\<open>s.split(sep, 1)\<close>: cut at the first occurrence only.\<close>

fun split_once_from :: "'a list \<Rightarrow> 'a list \<Rightarrow> 'a list \<Rightarrow> 'a list list" where
  "split_once_from sep piece [] = [piece]"
| "split_once_from sep piece (c # cs) =
     (if sep \<noteq> [] \<and> prefix sep (c # cs)
      then [piece, drop (length sep) (c # cs)]
      else split_once_from sep (piece @ [c]) cs)"

definition str_split_once :: "string \<Rightarrow> string \<Rightarrow> string list" where
  "str_split_once s sep = split_once_from sep [] s"

text \<open>
  Whitespace as \<open>str.split()\<close> and \<open>str.strip()\<close> see it among the ASCII characters:
  tab, line feed, vertical tab, form feed, carriage return, the four separators
  \<open>0x1c\<close> to \<open>0x1f\<close>, and space.
\<close>

definition is_space :: "char \<Rightarrow> bool" where
  "is_space c \<longleftrightarrow>
     c \<in> {CHR 0x09, CHR 0x0A, CHR 0x0B, CHR 0x0C, CHR 0x0D,
          CHR 0x1C, CHR 0x1D, CHR 0x1E, CHR 0x1F, CHR '' ''}"

text \<open>\<open>s.split()\<close>: the maximal runs of characters that are not whitespace.\<close>

fun split_ws_from :: "string \<Rightarrow> string \<Rightarrow> string list" where
  "split_ws_from piece [] = (if piece = [] then [] else [piece])"
| "split_ws_from piece (c # cs) =
     (if is_space c
      then (if piece = [] then split_ws_from [] cs else piece # split_ws_from [] cs)
      else split_ws_from (piece @ [c]) cs)"

definition str_split_ws :: "string \<Rightarrow> string list" where
  "str_split_ws s = split_ws_from [] s"

definition str_strip :: "string \<Rightarrow> string" where
  "str_strip s = rev (dropWhile is_space (rev (dropWhile is_space s)))"

text \<open>\<open>sep.join(xs)\<close>.\<close>

fun str_join :: "'a list \<Rightarrow> 'a list list \<Rightarrow> 'a list" where
  "str_join sep [] = []"
| "str_join sep [x] = x"
| "str_join sep (x # y # ys) = x @ sep @ str_join sep (y # ys)"

text \<open>\<open>sub in s\<close> is \<^const>\<open>sublist\<close>, \<open>s.startswith(p)\<close> is \<^const>\<open>prefix\<close>.\<close>

text \<open>
  \<open>s.find(sub)\<close> and \<open>s.find(sub, start)\<close> for \<open>start \<ge> 0\<close>: the index of the first
  occurrence at or after \<open>start\<close>, or \<open>-1\<close>.
\<close>

fun find_at :: "nat \<Rightarrow> 'a list \<Rightarrow> 'a list \<Rightarrow> int" where
  "find_at i sub [] = (if sub = [] then int i else - 1)"
| "find_at i sub (c # cs) = (if prefix sub (c # cs) then int i else find_at (Suc i) sub cs)"

definition str_find :: "string \<Rightarrow> string \<Rightarrow> int" where
  "str_find s sub = find_at 0 sub s"

definition str_find_from :: "string \<Rightarrow> string \<Rightarrow> int \<Rightarrow> int" where
  "str_find_from s sub start =
     (if int (length s) < start then - 1 else find_at (nat start) sub (drop (nat start) s))"

text \<open>\<open>s[start:end]\<close> for \<open>0 \<le> start\<close> and \<open>0 \<le> end\<close>, the only slices the modules take.\<close>

definition slice :: "string \<Rightarrow> int \<Rightarrow> int \<Rightarrow> string" where
  "slice s start stop = take (nat (stop - start)) (drop (nat start) s)"

text \<open>A string is true in a condition when it is not empty; \<open>None\<close> is false.\<close>

definition truthy :: "string option \<Rightarrow> bool" where
  "truthy s = (case s of None \<Rightarrow> False | Some x \<Rightarrow> x \<noteq> [])"

definition newline :: string where
  "newline = [CHR 0x0A]"

definition dquote :: string where
  "dquote = [CHR 0x22]"

definition squote :: string where
  "squote = [CHR 0x27]"

text \<open>\<open>s.upper()\<close> on ASCII letters.\<close>

definition upper_char :: "char \<Rightarrow> char" where
  "upper_char c =
     (case map_of (zip ''abcdefghijklmnopqrstuvwxyz'' ''ABCDEFGHIJKLMNOPQRSTUVWXYZ'') c of
        Some u \<Rightarrow> u
      | None \<Rightarrow> c)"

definition str_upper :: "string \<Rightarrow> string" where
  "str_upper s = map upper_char s"

text \<open>
  A dictionary whose order of insertion matters (it is iterated) is a list of pairs with
  distinct keys: \<open>d[k] = v\<close> replaces the value of a present key in place and appends an
  absent one; \<open>d[k]\<close> and \<open>d.get(k, default)\<close> are \<^const>\<open>map_of\<close>.
\<close>

definition dict_set :: "'k \<Rightarrow> 'v \<Rightarrow> ('k \<times> 'v) list \<Rightarrow> ('k \<times> 'v) list" where
  "dict_set k v d =
     (if k \<in> fst ` set d then map (\<lambda>(k', v'). if k' = k then (k', v) else (k', v')) d
      else d @ [(k, v)])"
section \<open>The port assignment registry: \<open>config/port_manager.py\<close>\<close>

text \<open>
  One entry of the \<open>assigned_ports\<close> dictionary, the JSON object
  \<open>{"port": ..., "purpose": ..., "assigned_at": ...}\<close>; the field names carry
  the prefix \<open>entry_\<close>.
\<close>

record assignment =
  entry_port :: int
  entry_purpose :: string
  entry_assigned_at :: string

text \<open>
  The document \<open>_save_assignments\<close> writes and \<open>_load_assignments\<close> reads. A key
  that \<open>data.get\<close> reads with a default may be missing from a file, so \<open>next_port\<close>
  and \<open>assignments\<close> are optional.
\<close>

record port_document =
  doc_base_port :: "int option"
  doc_next_port :: "int option"
  doc_assignments :: "(string \<rightharpoonup> assignment) option"

text \<open>
  What is found at \<open>./config/port_assignments.json\<close>: no file, a file that is not
  JSON (\<open>json.load\<close> raises \<open>JSONDecodeError\<close>), or a JSON document.
\<close>

datatype port_file_content = Absent | Malformed | Stored port_document

text \<open>
  The \<open>PortManager\<close> object together with the file it owns. \<open>port_file\<close> holds the
  content of the file at the path of the same name; \<open>writes\<close> counts the calls of
  \<open>_save_assignments\<close> that wrote it. Writing the file is modelled as succeeding; the
  lock serialises the callers of one process and has no sequential content.
\<close>

record PortManager =
  base_port :: int
  current_port :: int
  assigned_ports :: "string \<rightharpoonup> assignment"
  port_file :: port_file_content
  writes :: nat

definition load_assignments :: "PortManager \<Rightarrow> PortManager" where
  "load_assignments pm =
     (case port_file pm of
        Absent \<Rightarrow> pm
      | Malformed \<Rightarrow> pm\<lparr>assigned_ports := Map.empty, current_port := base_port pm\<rparr>
      | Stored data \<Rightarrow>
          (let pm1 = pm\<lparr>assigned_ports :=
                          (case doc_assignments data of None \<Rightarrow> Map.empty | Some a \<Rightarrow> a),
                        current_port :=
                          (case doc_next_port data of None \<Rightarrow> base_port pm | Some n \<Rightarrow> n)\<rparr>
           in if current_port pm1 < base_port pm1
              then pm1\<lparr>current_port := base_port pm1\<rparr>
              else pm1))"

text \<open>
  \<open>PortManager.__init__(base_port)\<close>. \<open>base_port or int(os.getenv("BASE_PORT", "4000"))\<close>
  takes the argument unless it is \<open>None\<close> or \<open>0\<close>; \<open>env_base\<close> is the value of
  \<open>int(os.getenv("BASE_PORT", "4000"))\<close>, \<open>None\<close> when \<open>int\<close> raises \<open>ValueError\<close>.
  \<open>file\<close> is what the file system holds when the object is built.
\<close>

definition init :: "int option \<Rightarrow> int option \<Rightarrow> port_file_content \<Rightarrow> exn + PortManager" where
  "init base_port_arg env_base file =
     (let chosen =
            (case base_port_arg of
               Some b \<Rightarrow> if b \<noteq> 0 then Inr b
                         else (case env_base of
                                 None \<Rightarrow> Inl (ValueError ''invalid literal for int()'')
                               | Some e \<Rightarrow> Inr e)
             | None \<Rightarrow> (case env_base of
                          None \<Rightarrow> Inl (ValueError ''invalid literal for int()'')
                        | Some e \<Rightarrow> Inr e))
      in case chosen of
           Inl e \<Rightarrow> Inl e
         | Inr b \<Rightarrow> Inr (load_assignments
                          \<lparr>base_port = b, current_port = b, assigned_ports = Map.empty,
                           port_file = file, writes = 0\<rparr>))"

definition save_assignments :: "PortManager \<Rightarrow> PortManager" where
  "save_assignments pm =
     pm\<lparr>port_file := Stored \<lparr>doc_base_port = Some (base_port pm),
                              doc_next_port = Some (current_port pm),
                              doc_assignments = Some (assigned_ports pm)\<rparr>,
        writes := Suc (writes pm)\<rparr>"

text \<open>
  \<open>assign_port(service_name, purpose)\<close>; \<open>now\<close> is what \<open>_get_timestamp()\<close> returns
  at the call. The result is the returned port and the object after the call.
\<close>

definition assign_port :: "string \<Rightarrow> string \<Rightarrow> string \<Rightarrow> PortManager \<Rightarrow> int \<times> PortManager" where
  "assign_port service_name purpose now pm =
     (case assigned_ports pm service_name of
        Some a \<Rightarrow> (entry_port a, pm)
      | None \<Rightarrow>
          (let assigned_port = current_port pm;
               pm1 = pm\<lparr>assigned_ports := (assigned_ports pm)
                          (service_name \<mapsto>
                             \<lparr>entry_port = assigned_port, entry_purpose = purpose, entry_assigned_at = now\<rparr>)\<rparr>;
               pm2 = pm1\<lparr>current_port := current_port pm1 + 1\<rparr>
           in (assigned_port, save_assignments pm2)))"

definition get_port :: "string \<Rightarrow> PortManager \<Rightarrow> int option" where
  "get_port service_name pm =
     (case assigned_ports pm service_name of Some a \<Rightarrow> Some (entry_port a) | None \<Rightarrow> None)"

definition get_next_port :: "PortManager \<Rightarrow> int" where
  "get_next_port pm = current_port pm"

definition release_port :: "string \<Rightarrow> PortManager \<Rightarrow> bool \<times> PortManager" where
  "release_port service_name pm =
     (case assigned_ports pm service_name of
        Some a \<Rightarrow> (True, save_assignments (pm\<lparr>assigned_ports := (assigned_ports pm)(service_name := None)\<rparr>))
      | None \<Rightarrow> (False, pm))"

definition reset_assignments :: "PortManager \<Rightarrow> PortManager" where
  "reset_assignments pm =
     save_assignments (pm\<lparr>assigned_ports := Map.empty, current_port := base_port pm\<rparr>)"

text \<open>
  The registry states that runs of the program produce. The first session finds no usable
  file; a session assigns, releases and resets; a later session builds a new object from
  the file the earlier one left. The index \<open>lo\<close> is a lower bound of the base ports of
  all sessions so far.
\<close>

inductive reachable :: "int \<Rightarrow> PortManager \<Rightarrow> bool" where
  first_session:
    "init base_port_arg env_base file = Inr pm \<Longrightarrow> file = Absent \<or> file = Malformed \<Longrightarrow>
     lo \<le> base_port pm \<Longrightarrow> reachable lo pm"
| after_assign:
    "reachable lo pm \<Longrightarrow> reachable lo (snd (assign_port service_name purpose now pm))"
| after_release:
    "reachable lo pm \<Longrightarrow> reachable lo (snd (release_port service_name pm))"
| after_reset:
    "reachable lo pm \<Longrightarrow> reachable lo (reset_assignments pm)"
| next_session:
    "reachable lo pm \<Longrightarrow> init base_port_arg env_base (port_file pm) = Inr pm' \<Longrightarrow>
     lo \<le> base_port pm' \<Longrightarrow> reachable lo pm'"

text \<open>The registry invariant as the specification states it.\<close>

definition registry_invariant :: "PortManager \<Rightarrow> bool" where
  "registry_invariant pm \<longleftrightarrow>
     base_port pm \<le> current_port pm \<and>
     (\<forall>s a. assigned_ports pm s = Some a \<longrightarrow> entry_port a + 1 \<le> current_port pm) \<and>
     (\<forall>s a. assigned_ports pm s = Some a \<longrightarrow> base_port pm \<le> entry_port a)"

text \<open>
  What holds of a file a session left behind: it is no file, a broken one, or a document
  whose cursor lies above each of its assigned ports, all of them at least \<open>lo\<close>.
\<close>

definition document_ok :: "int \<Rightarrow> port_file_content \<Rightarrow> bool" where
  "document_ok lo f \<longleftrightarrow>
     (case f of
        Stored d \<Rightarrow>
          (case (doc_next_port d, doc_assignments d) of
             (Some n, Some m) \<Rightarrow> (\<forall>s a. m s = Some a \<longrightarrow> lo \<le> entry_port a \<and> entry_port a + 1 \<le> n)
           | _ \<Rightarrow> False)
      | _ \<Rightarrow> True)"

definition session_invariant :: "int \<Rightarrow> PortManager \<Rightarrow> bool" where
  "session_invariant lo pm \<longleftrightarrow>
     lo \<le> base_port pm \<and> base_port pm \<le> current_port pm \<and>
     (\<forall>s a. assigned_ports pm s = Some a \<longrightarrow> lo \<le> entry_port a \<and> entry_port a + 1 \<le> current_port pm)"

text \<open>Two sessions: the first assigns a port under base port 4000, the second starts
  under base port 5000 from the file the first one wrote.\<close>

definition session_4000 :: PortManager where
  "session_4000 =
     snd (assign_port ''web'' ''http'' ''2024-01-01T00:00:00''
            \<lparr>base_port = 4000, current_port = 4000, assigned_ports = Map.empty,
             port_file = Absent, writes = 0\<rparr>)"

definition session_5000 :: PortManager where
  "session_5000 =
     load_assignments
       \<lparr>base_port = 5000, current_port = 5000, assigned_ports = Map.empty,
        port_file = port_file session_4000, writes = 0\<rparr>"

definition fresh_4000 :: PortManager where
  "fresh_4000 = \<lparr>base_port = 4000, current_port = 4000, assigned_ports = Map.empty,
             port_file = Absent, writes = 0\<rparr>"

section \<open>The host: sockets and subprocesses\<close>

text \<open>
  What \<open>subprocess.run(..., capture_output=True, text=True)\<close> returns.
\<close>

record CompletedProcess =
  returncode :: int
  stdout :: string
  stderr :: string

text \<open>
  Every action of the program on the host is recorded, in order: a \<open>bind\<close> of a socket,
  a command run as a subprocess (\<open>RunEnv\<close> when variables are added to its environment),
  a file written.
\<close>

datatype event =
    Bind string int
  | Run "string list"
  | RunEnv "string list" "(string \<times> string) list"
  | WriteFile string string

text \<open>
  The host as the program meets it. \<open>platform\<close> is \<open>sys.platform\<close>; \<open>getcwd\<close> is
  \<open>os.getcwd()\<close>. \<open>resolves host\<close> says that the host string denotes an address
  of the machine, \<open>bindable host port\<close> that the operating system grants a bind to a port
  within 0 to 65535: port availability is a fixed oracle. \<open>subprocess\<close> is the outcome of
  running a command: the completed process, or the exception \<open>subprocess.run\<close> raises; it
  may depend on everything done before. \<open>subprocess_env\<close> is the same for a command run
  with \<open>env=\<close>, given the variables added to \<open>os.environ\<close>.
\<close>

record env =
  platform :: string
  getcwd :: string
  resolves :: "string \<Rightarrow> bool"
  bindable :: "string \<Rightarrow> int \<Rightarrow> bool"
  subprocess :: "event list \<Rightarrow> string list \<Rightarrow> exn + CompletedProcess"
  subprocess_env ::
    "event list \<Rightarrow> string list \<Rightarrow> (string \<times> string) list \<Rightarrow> exn + CompletedProcess"

text \<open>
  \<open>sock.bind((host, port))\<close> on a fresh TCP socket, as CPython's socket module does it.
  The address tuple is parsed first, and a port that does not fit a C \<open>int\<close> raises
  \<open>OverflowError\<close>; then the host is resolved (\<open>socket.gaierror\<close>, an \<open>OSError\<close>,
  when that fails); then a port outside 0 to 65535 raises \<open>OverflowError\<close>, which is not
  an \<open>OSError\<close>; then the operating system accepts or refuses.
\<close>

definition socket_bind :: "env \<Rightarrow> string \<Rightarrow> int \<Rightarrow> exn + unit" where
  "socket_bind e host port =
     (if port < - 2147483648 \<or> 2147483647 < port
      then Inl (OverflowError ''bind(): port must be 0-65535.'')
      else if \<not> resolves e host then Inl (OSError ''gaierror'')
      else if port < 0 \<or> 65535 < port then Inl (OverflowError ''bind(): port must be 0-65535.'')
      else if bindable e host port then Inr ()
      else Inl (OSError ''Address already in use''))"

definition subprocess_run ::
    "string list \<Rightarrow> env \<Rightarrow> event list \<Rightarrow> (exn + CompletedProcess) \<times> event list" where
  "subprocess_run argv e tr = (subprocess e tr argv, tr @ [Run argv])"

definition subprocess_run_env ::
    "string list \<Rightarrow> (string \<times> string) list \<Rightarrow> env \<Rightarrow> event list \<Rightarrow>
     (exn + CompletedProcess) \<times> event list" where
  "subprocess_run_env argv vars e tr = (subprocess_env e tr argv vars, tr @ [RunEnv argv vars])"

section \<open>Sequential ports: \<open>utils/ports.py\<close>\<close>

text \<open>
  A function of the module takes the host \<open>e\<close> and the events so far, and returns its
  result (or the exception it raises) with the events extended by what it did. The
  functions keep their names, without the leading underscore of the private ones.
\<close>

subsection \<open>\<open>_is_port_available\<close>\<close>

definition is_port_available ::
    "int \<Rightarrow> string \<Rightarrow> env \<Rightarrow> event list \<Rightarrow> (exn + bool) \<times> event list" where
  "is_port_available port host e tr =
     (case socket_bind e host port of
        Inr _ \<Rightarrow> (Inr True, tr @ [Bind host port])
      | Inl err \<Rightarrow> if is_OSError err then (Inr False, tr @ [Bind host port])
                   else (Inl err, tr @ [Bind host port]))"

subsection \<open>\<open>find_sequential_ports\<close>\<close>

text \<open>
  The inner loop \<open>for i in range(count)\<close>: the ports collected so far and the flag
  \<open>all_available\<close>; it stops at the first port that is not available. The local
  \<open>current_port\<close> is written \<open>current\<close>.
\<close>

fun scan_window ::
    "int \<Rightarrow> string \<Rightarrow> env \<Rightarrow> int list \<Rightarrow> int list \<Rightarrow> event list \<Rightarrow>
     (exn + int list \<times> bool) \<times> event list" where
  "scan_window current host e [] ports tr = (Inr (ports, True), tr)"
| "scan_window current host e (i # rest) ports tr =
     (let port = current + i in
      case is_port_available port host e tr of
        (Inl err, tr1) \<Rightarrow> (Inl err, tr1)
      | (Inr ok, tr1) \<Rightarrow>
          if ok then scan_window current host e rest (ports @ [port]) tr1
          else (Inr (ports, False), tr1))"

text \<open>
  The outer loop \<open>for _ in range(max_attempts)\<close>, by the number of attempts left:
  \<open>Some ports\<close> is the \<open>return\<close>, \<open>None\<close> is leaving the loop (exhausted, or by
  \<open>break\<close>).
\<close>

fun search_ports ::
    "nat \<Rightarrow> int \<Rightarrow> int \<Rightarrow> string \<Rightarrow> env \<Rightarrow> event list \<Rightarrow>
     (exn + int list option) \<times> event list" where
  "search_ports 0 current count host e tr = (Inr None, tr)"
| "search_ports (Suc attempts) current count host e tr =
     (case scan_window current host e (py_range count) [] tr of
        (Inl err, tr1) \<Rightarrow> (Inl err, tr1)
      | (Inr (ports, all_available), tr1) \<Rightarrow>
          if all_available \<and> int (length ports) = count then (Inr (Some ports), tr1)
          else (let next_start = current + 1 in
                if next_start + count - 1 > 65535 then (Inr None, tr1)
                else search_ports attempts next_start count host e tr1))"

definition max_attempts :: nat where
  "max_attempts = 1000"

definition find_sequential_ports ::
    "int \<Rightarrow> int \<Rightarrow> string \<Rightarrow> env \<Rightarrow> event list \<Rightarrow> (exn + int list) \<times> event list" where
  "find_sequential_ports base count host e tr =
     (if count < 1 then (Inl (ValueError ''Count must be at least 1''), tr)
      else case search_ports max_attempts base count host e tr of
             (Inl err, tr1) \<Rightarrow> (Inl err, tr1)
           | (Inr (Some ports), tr1) \<Rightarrow> (Inr ports, tr1)
           | (Inr None, tr1) \<Rightarrow>
               (Inl (RuntimeError (''Unable to find '' @ str count @
                       '' sequential available ports starting from '' @ str base)), tr1))"

subsection \<open>\<open>_get_process_using_port\<close>\<close>

text \<open>
  Each attempt returns \<open>Some\<close> description (the function returns it), \<open>None\<close> (the
  attempt gives up and the next one runs), or the exception it lets through.
  \<open>except (subprocess.TimeoutExpired, FileNotFoundError): pass\<close> gives up on these two.
\<close>

definition gives_up :: "exn \<Rightarrow> bool" where
  "gives_up err \<longleftrightarrow> err = TimeoutExpired \<or> err = FileNotFoundError"

definition try_lsof :: "int \<Rightarrow> env \<Rightarrow> event list \<Rightarrow> (exn + string option) \<times> event list" where
  "try_lsof port e tr =
     (case subprocess_run [''lsof'', ''-i'', '':'' @ str port, ''-P'', ''-n''] e tr of
        (Inl err, tr1) \<Rightarrow> if gives_up err then (Inr None, tr1) else (Inl err, tr1)
      | (Inr result, tr1) \<Rightarrow>
          if returncode result = 0 \<and> str_strip (stdout result) \<noteq> [] then
            (let lines = str_split (str_strip (stdout result)) newline in
             if length lines > 1 then
               (let process_line = lines ! 1;
                    parts = str_split_ws process_line in
                if length parts \<ge> 2 then
                  (let process_name = parts ! 0;
                       pid = parts ! 1 in
                   (Inr (Some (''process '' @ process_name @ '' (PID '' @ pid @ '')'')), tr1))
                else (Inr None, tr1))
             else (Inr None, tr1))
          else (Inr None, tr1))"

text \<open>The loop over the lines of \<open>netstat -tulpn\<close>.\<close>

fun netstat_lines :: "int \<Rightarrow> string list \<Rightarrow> exn + string option" where
  "netstat_lines port [] = Inr None"
| "netstat_lines port (line # rest) =
     (if sublist ('':'' @ str port @ '' '') line then
        (let parts = str_split_ws line in
         if length parts \<ge> 7 \<and> parts ! 6 \<noteq> ''-'' then
           (let process_info = parts ! 6 in
            if sublist ''/'' process_info then
              (case str_split_once process_info ''/'' of
                 [pid, name] \<Rightarrow> Inr (Some (''process '' @ name @ '' (PID '' @ pid @ '')''))
               | _ \<Rightarrow> Inl (ValueError ''not enough values to unpack''))
            else Inr (Some (''process '' @ process_info)))
         else netstat_lines port rest)
      else netstat_lines port rest)"

definition try_netstat :: "int \<Rightarrow> env \<Rightarrow> event list \<Rightarrow> (exn + string option) \<times> event list" where
  "try_netstat port e tr =
     (case subprocess_run [''netstat'', ''-tulpn''] e tr of
        (Inl err, tr1) \<Rightarrow> if gives_up err then (Inr None, tr1) else (Inl err, tr1)
      | (Inr result, tr1) \<Rightarrow>
          if returncode result = 0
          then (netstat_lines port (str_split (stdout result) newline), tr1)
          else (Inr None, tr1))"

text \<open>The loop over the lines of \<open>ss -tulpn\<close>.\<close>

fun ss_lines :: "int \<Rightarrow> string list \<Rightarrow> string option" where
  "ss_lines port [] = None"
| "ss_lines port (line # rest) =
     (if sublist ('':'' @ str port @ '' '') line then
        (let parts = str_split_ws line in
         if length parts \<ge> 7 \<and> sublist ''users:'' (parts ! 6) then
           (let users_part = parts ! 6 in
            if sublist (''(('' @ dquote) users_part \<and> sublist (dquote @ '',pid='') users_part then
              (let start = str_find users_part (''(('' @ dquote) + 3;
                   stop = str_find users_part (dquote @ '',pid='') in
               if start < stop then
                 (let process_name = slice users_part start stop;
                      pid_start = str_find users_part ''pid='' + 4;
                      pid_end0 = str_find_from users_part '','' pid_start;
                      pid_end = (if pid_end0 = - 1 then str_find_from users_part '')'' pid_start
                                 else pid_end0) in
                  if pid_start < pid_end then
                    (let pid = slice users_part pid_start pid_end in
                     Some (''process '' @ process_name @ '' (PID '' @ pid @ '')''))
                  else ss_lines port rest)
               else ss_lines port rest)
            else ss_lines port rest)
         else ss_lines port rest)
      else ss_lines port rest)"

definition try_ss :: "int \<Rightarrow> env \<Rightarrow> event list \<Rightarrow> (exn + string option) \<times> event list" where
  "try_ss port e tr =
     (case subprocess_run [''ss'', ''-tulpn''] e tr of
        (Inl err, tr1) \<Rightarrow> if gives_up err then (Inr None, tr1) else (Inl err, tr1)
      | (Inr result, tr1) \<Rightarrow>
          if returncode result = 0
          then (Inr (ss_lines port (str_split (stdout result) newline)), tr1)
          else (Inr None, tr1))"

text \<open>The process name of a PID from \<open>tasklist\<close>, on Windows.\<close>

definition try_tasklist :: "string \<Rightarrow> env \<Rightarrow> event list \<Rightarrow> (exn + string option) \<times> event list" where
  "try_tasklist pid e tr =
     (case subprocess_run [''tasklist'', ''/FI'', ''PID eq '' @ pid, ''/FO'', ''CSV''] e tr of
        (Inl err, tr1) \<Rightarrow> if gives_up err then (Inr None, tr1) else (Inl err, tr1)
      | (Inr tasklist_result, tr1) \<Rightarrow>
          if returncode tasklist_result = 0 then
            (let lines = str_split (str_strip (stdout tasklist_result)) newline in
             if length lines \<ge> 2 then
               (let process_line = lines ! 1 in
                if prefix dquote process_line then
                  (case str_split process_line dquote of
                     _ # process_name # _ \<Rightarrow>
                       (Inr (Some (''process '' @ process_name @ '' (PID '' @ pid @ '')'')), tr1)
                   | _ \<Rightarrow> (Inl IndexError, tr1))
                else (Inr None, tr1))
             else (Inr None, tr1))
          else (Inr None, tr1))"

text \<open>The loop over the lines of \<open>netstat -ano\<close>, on Windows.\<close>

fun windows_lines ::
    "int \<Rightarrow> string list \<Rightarrow> env \<Rightarrow> event list \<Rightarrow> (exn + string option) \<times> event list" where
  "windows_lines port [] e tr = (Inr None, tr)"
| "windows_lines port (line # rest) e tr =
     (if sublist ('':'' @ str port @ '' '') line \<and> sublist ''LISTENING'' line then
        (let parts = str_split_ws line in
         if length parts \<ge> 5 then
           (let pid = parts ! 4 in
            case try_tasklist pid e tr of
              (Inl err, tr1) \<Rightarrow> (Inl err, tr1)
            | (Inr (Some described), tr1) \<Rightarrow> (Inr (Some described), tr1)
            | (Inr None, tr1) \<Rightarrow> (Inr (Some (''process PID '' @ pid)), tr1))
         else windows_lines port rest e tr)
      else windows_lines port rest e tr)"

definition try_windows :: "int \<Rightarrow> env \<Rightarrow> event list \<Rightarrow> (exn + string option) \<times> event list" where
  "try_windows port e tr =
     (case subprocess_run [''netstat'', ''-ano''] e tr of
        (Inl err, tr1) \<Rightarrow> if gives_up err then (Inr None, tr1) else (Inl err, tr1)
      | (Inr result, tr1) \<Rightarrow>
          if returncode result = 0
          then windows_lines port (str_split (stdout result) newline) e tr1
          else (Inr None, tr1))"

text \<open>The body of the outer \<open>try\<close>: the attempts in order, then the generic fallback.\<close>

definition process_lookup :: "int \<Rightarrow> env \<Rightarrow> event list \<Rightarrow> (exn + string) \<times> event list" where
  "process_lookup port e tr =
     (if prefix ''linux'' (platform e) \<or> prefix ''darwin'' (platform e) then
        (case try_lsof port e tr of
           (Inl err, tr1) \<Rightarrow> (Inl err, tr1)
         | (Inr (Some described), tr1) \<Rightarrow> (Inr described, tr1)
         | (Inr None, tr1) \<Rightarrow>
             (case try_netstat port e tr1 of
                (Inl err, tr2) \<Rightarrow> (Inl err, tr2)
              | (Inr (Some described), tr2) \<Rightarrow> (Inr described, tr2)
              | (Inr None, tr2) \<Rightarrow>
                  (case try_ss port e tr2 of
                     (Inl err, tr3) \<Rightarrow> (Inl err, tr3)
                   | (Inr (Some described), tr3) \<Rightarrow> (Inr described, tr3)
                   | (Inr None, tr3) \<Rightarrow> (Inr ''unknown process'', tr3))))
      else if prefix ''win'' (platform e) then
        (case try_windows port e tr of
           (Inl err, tr1) \<Rightarrow> (Inl err, tr1)
         | (Inr (Some described), tr1) \<Rightarrow> (Inr described, tr1)
         | (Inr None, tr1) \<Rightarrow> (Inr ''unknown process'', tr1))
      else (Inr ''unknown process'', tr))"

text \<open>\<open>_get_process_using_port\<close>, of type \<open>Optional[str]\<close>: \<open>except Exception\<close> turns
  whatever the body raises into the generic description.\<close>

definition get_process_using_port ::
    "int \<Rightarrow> env \<Rightarrow> event list \<Rightarrow> string option \<times> event list" where
  "get_process_using_port port e tr =
     (case process_lookup port e tr of
        (Inl err, tr1) \<Rightarrow> (Some ''unknown process'', tr1)
      | (Inr described, tr1) \<Rightarrow> (Some described, tr1))"

subsection \<open>\<open>check_sequential_port_block\<close>\<close>

record PortInfo =
  info_port :: int
  info_available :: bool
  process_info :: "string option"

record PortBlockCheckResult =
  available :: bool
  requested_range :: "int \<times> int"
  busy_ports :: "PortInfo list"
  error_message :: "string option"

text \<open>The loop \<open>for i in range(count)\<close> that collects the busy ports.\<close>

fun collect_busy ::
    "int \<Rightarrow> string \<Rightarrow> env \<Rightarrow> int list \<Rightarrow> PortInfo list \<Rightarrow> event list \<Rightarrow>
     (exn + PortInfo list) \<times> event list" where
  "collect_busy base host e [] busy tr = (Inr busy, tr)"
| "collect_busy base host e (i # rest) busy tr =
     (let port = base + i in
      case is_port_available port host e tr of
        (Inl err, tr1) \<Rightarrow> (Inl err, tr1)
      | (Inr ok, tr1) \<Rightarrow>
          if \<not> ok then
            (case get_process_using_port port e tr1 of
               (described, tr2) \<Rightarrow>
                 collect_busy base host e rest
                   (busy @ [\<lparr>info_port = port, info_available = False,
                             process_info = described\<rparr>]) tr2)
          else collect_busy base host e rest busy tr1)"

definition busy_port_str :: "PortInfo \<Rightarrow> string" where
  "busy_port_str port_info =
     (if truthy (process_info port_info)
      then str (info_port port_info) @ '' already in use ('' @ the (process_info port_info) @ '')''
      else str (info_port port_info) @ '' already in use'')"

definition port_description :: "string \<Rightarrow> string" where
  "port_description port_str =
     (let parts = str_split port_str '' already in use'' in
      if length parts = 2 then parts ! 0 @ '' already in use'' @ parts ! 1
      else port_str)"

text \<open>The error message for a non-empty list of busy ports; \<open>busy_port_strs[0]\<close> and
  \<open>split(...)[1]\<close> raise \<open>IndexError\<close> out of range.\<close>

definition busy_message :: "int \<Rightarrow> int \<Rightarrow> PortInfo list \<Rightarrow> exn + string" where
  "busy_message base count busy =
     (let busy_port_strs = map busy_port_str busy;
          end_port = base + count - 1 in
      if count = 1 then
        (case busy_port_strs of
           [] \<Rightarrow> Inl IndexError
         | port_desc # _ \<Rightarrow>
             (case str_split port_desc (str base @ '' '') of
                _ # described # _ \<Rightarrow> Inr (''Port '' @ str base @ '': '' @ described)
              | _ \<Rightarrow> Inl IndexError))
      else
        (let port_descriptions = map port_description busy_port_strs in
         Inr (''Ports '' @ str base @ ''-'' @ str end_port @ '': '' @
              str_join '', '' port_descriptions)))"

definition check_sequential_port_block ::
    "int \<Rightarrow> int \<Rightarrow> string \<Rightarrow> env \<Rightarrow> event list \<Rightarrow>
     (exn + PortBlockCheckResult) \<times> event list" where
  "check_sequential_port_block base count host e tr =
     (if count < 1 then
        (Inr \<lparr>available = False, requested_range = (base, base + count - 1),
              busy_ports = [], error_message = Some ''Count must be at least 1''\<rparr>, tr)
      else
        (let end_port = base + count - 1 in
         if end_port > 65535 then
           (Inr \<lparr>available = False, requested_range = (base, end_port), busy_ports = [],
                 error_message = Some (''Port range '' @ str base @ ''-'' @ str end_port @
                                       '' exceeds maximum port number 65535'')\<rparr>, tr)
         else
           (case collect_busy base host e (py_range count) [] tr of
              (Inl err, tr1) \<Rightarrow> (Inl err, tr1)
            | (Inr busy, tr1) \<Rightarrow>
                (let is_available = (length busy = 0) in
                 if \<not> is_available then
                   (case busy_message base count busy of
                      Inl err \<Rightarrow> (Inl err, tr1)
                    | Inr message \<Rightarrow>
                        (Inr \<lparr>available = is_available, requested_range = (base, end_port),
                              busy_ports = busy, error_message = Some message\<rparr>, tr1))
                 else
                   (Inr \<lparr>available = is_available, requested_range = (base, end_port),
                         busy_ports = busy, error_message = None\<rparr>, tr1)))))"

subsection \<open>Vocabulary for the properties\<close>

text \<open>
  What a probe of a port returns, whatever was done before: \<open>Inr True\<close> for a port
  that can be bound, \<open>Inr False\<close> for one that cannot, or the exception raised.
\<close>

definition probe :: "env \<Rightarrow> string \<Rightarrow> int \<Rightarrow> exn + bool" where
  "probe e host port = fst (is_port_available port host e [])"

definition port_free :: "env \<Rightarrow> string \<Rightarrow> int \<Rightarrow> bool" where
  "port_free e host port \<longleftrightarrow> probe e host port = Inr True"

definition port_busy :: "env \<Rightarrow> string \<Rightarrow> int \<Rightarrow> bool" where
  "port_busy e host port \<longleftrightarrow> probe e host port = Inr False"

text \<open>
  A Linux host on which every address resolves, port 8091 is taken and every other port
  is free, and none of the inspection tools is installed.
\<close>

definition demo_host :: env where
  "demo_host = \<lparr>platform = ''linux'', getcwd = ''/srv/harness'', resolves = (\<lambda>h. True),
     bindable = (\<lambda>h p. p \<noteq> 8091), subprocess = (\<lambda>tr argv. Inl FileNotFoundError),
     subprocess_env = (\<lambda>tr argv vars. Inl FileNotFoundError)\<rparr>"

section \<open>The container orchestrator: \<open>container_orchestrator.py\<close>\<close>

text \<open>The dataclass \<open>ContainerRuntime\<close>; the field names carry the prefix \<open>rt_\<close>.\<close>

record ContainerRuntime =
  rt_name :: string
  rt_command :: string
  rt_compose_command :: string
  rt_available :: bool
  rt_version :: string

text \<open>
  The object \<open>ContainerOrchestrator\<close>. \<open>ports\<close> is the dictionary from service to
  port, in insertion order. A method takes the host, the object and the events so far,
  and returns its result with the object and the events after the call. What the methods
  print is not recorded.
\<close>

record ContainerOrchestrator =
  runtime :: "ContainerRuntime option"
  containers :: "string list"
  compose_file :: string
  project_name :: string
  ports :: "(string \<times> int) list"

definition new_orchestrator :: ContainerOrchestrator where
  "new_orchestrator =
     \<lparr>runtime = None, containers = [], compose_file = ''docker-compose.test.yml'',
      project_name = ''test-env'', ports = []\<rparr>"

subsection \<open>Runtime detection\<close>

definition check_command_available ::
    "string \<Rightarrow> env \<Rightarrow> event list \<Rightarrow> (exn + bool) \<times> event list" where
  "check_command_available command e tr =
     (case subprocess_run [command, ''--version''] e tr of
        (Inl err, tr1) \<Rightarrow> if gives_up err then (Inr False, tr1) else (Inl err, tr1)
      | (Inr _, tr1) \<Rightarrow> (Inr True, tr1))"

text \<open>The handler \<open>except (subprocess.TimeoutExpired, FileNotFoundError): pass\<close> of
  \<open>_check_runtime_available\<close>, followed by \<open>return False\<close>.\<close>

definition runtime_except ::
    "exn \<Rightarrow> ContainerRuntime \<Rightarrow> event list \<Rightarrow> (exn + bool) \<times> ContainerRuntime \<times> event list" where
  "runtime_except err rt tr = (if gives_up err then (Inr False, rt, tr) else (Inl err, rt, tr))"

definition check_runtime_available ::
    "ContainerRuntime \<Rightarrow> env \<Rightarrow> event list \<Rightarrow>
     (exn + bool) \<times> ContainerRuntime \<times> event list" where
  "check_runtime_available rt e tr =
     (case subprocess_run [rt_command rt, ''--version''] e tr of
        (Inl err, tr1) \<Rightarrow> runtime_except err rt tr1
      | (Inr result, tr1) \<Rightarrow>
          if returncode result = 0 then
            (let rt1 = rt\<lparr>rt_available := True, rt_version := str_strip (stdout result)\<rparr> in
             if rt_name rt1 = ''podman'' then
               (case check_command_available ''podman-compose'' e tr1 of
                  (Inl err, tr2) \<Rightarrow> runtime_except err rt1 tr2
                | (Inr has_podman_compose, tr2) \<Rightarrow>
                    if has_podman_compose then (Inr True, rt1, tr2)
                    else
                      (case check_command_available ''docker-compose'' e tr2 of
                         (Inl err, tr3) \<Rightarrow> runtime_except err rt1 tr3
                       | (Inr compose_available, tr3) \<Rightarrow>
                           if \<not> compose_available
                           then (Inr True, rt1\<lparr>rt_compose_command := ''podman''\<rparr>, tr3)
                           else (Inr True, rt1, tr3)))
             else if rt_name rt1 = ''docker'' then
               (case check_command_available ''docker-compose'' e tr1 of
                  (Inl err, tr2) \<Rightarrow> runtime_except err rt1 tr2
                | (Inr has_docker_compose, tr2) \<Rightarrow>
                    if \<not> has_docker_compose
                    then (Inr True, rt1\<lparr>rt_compose_command := ''docker compose''\<rparr>, tr2)
                    else (Inr True, rt1, tr2))
             else (Inr True, rt1, tr1))
          else (Inr False, rt, tr1))"

definition runtimes :: "ContainerRuntime list" where
  "runtimes =
     [\<lparr>rt_name = ''podman'', rt_command = ''podman'', rt_compose_command = ''podman-compose'',
       rt_available = False, rt_version = ''''\<rparr>,
      \<lparr>rt_name = ''docker'', rt_command = ''docker'', rt_compose_command = ''docker-compose'',
       rt_available = False, rt_version = ''''\<rparr>,
      \<lparr>rt_name = ''nerdctl'', rt_command = ''nerdctl'', rt_compose_command = ''nerdctl compose'',
       rt_available = False, rt_version = ''''\<rparr>,
      \<lparr>rt_name = ''buildah'', rt_command = ''buildah'', rt_compose_command = ''buildah-compose'',
       rt_available = False, rt_version = ''''\<rparr>]"

text \<open>The loop \<open>for runtime in runtimes\<close> of \<open>detect_runtime\<close>.\<close>

fun detect_loop ::
    "ContainerRuntime list \<Rightarrow> env \<Rightarrow> ContainerOrchestrator \<Rightarrow> event list \<Rightarrow>
     (exn + ContainerRuntime) \<times> ContainerOrchestrator \<times> event list" where
  "detect_loop [] e self tr =
     (Inl (RuntimeError (''No compatible container runtime found. '' @
             ''Please install Docker, Podman, or another OCI-compatible runtime.'')), self, tr)"
| "detect_loop (rt # rest) e self tr =
     (case check_runtime_available rt e tr of
        (Inl err, rt1, tr1) \<Rightarrow> (Inl err, self, tr1)
      | (Inr found, rt1, tr1) \<Rightarrow>
          if found then (Inr rt1, self\<lparr>runtime := Some rt1\<rparr>, tr1)
          else detect_loop rest e self tr1)"

definition detect_runtime ::
    "env \<Rightarrow> ContainerOrchestrator \<Rightarrow> event list \<Rightarrow>
     (exn + ContainerRuntime) \<times> ContainerOrchestrator \<times> event list" where
  "detect_runtime e self tr = detect_loop runtimes e self tr"

subsection \<open>Port allocation\<close>

text \<open>
  \<open>self.ports = {}\<close> followed by \<open>self.ports[service] = allocated_ports[i]\<close> for each
  service; \<open>allocated_ports[i]\<close> raises \<open>IndexError\<close> when the list is too short.
\<close>

definition port_mapping :: "string list \<Rightarrow> int list \<Rightarrow> exn + (string \<times> int) list" where
  "port_mapping services allocated_ports =
     (if length allocated_ports < length services then Inl IndexError
      else Inr (fold (\<lambda>(service, p). dict_set service p) (zip services allocated_ports) []))"

definition services :: "string list" where
  "services = [''app'', ''postgres'', ''mongo'']"

text \<open>The handler \<open>except Exception as e\<close> of \<open>_allocate_ports\<close>: an error that
  mentions a port in use is raised again; any other one starts the search for another
  block.\<close>

definition allocate_except ::
    "exn \<Rightarrow> env \<Rightarrow> ContainerOrchestrator \<Rightarrow> event list \<Rightarrow>
     (exn + unit) \<times> ContainerOrchestrator \<times> event list" where
  "allocate_except err e self tr =
     (if sublist ''already in use'' (exn_str err) then
        (Inl (RuntimeError (''Unable to allocate sequential ports: '' @ exn_str err)), self, tr)
      else
        (case find_sequential_ports 8090 (int (length services)) ''0.0.0.0'' e tr of
           (Inl fallback_e, tr1) \<Rightarrow>
             (Inl (RuntimeError (''Unable to allocate sequential ports: '' @ exn_str fallback_e)),
              self, tr1)
         | (Inr allocated_ports, tr1) \<Rightarrow>
             (case port_mapping services allocated_ports of
                Inl fallback_e \<Rightarrow>
                  (Inl (RuntimeError (''Unable to allocate sequential ports: '' @
                          exn_str fallback_e)), self, tr1)
              | Inr mapping \<Rightarrow> (Inr (), self\<lparr>ports := mapping\<rparr>, tr1))))"

text \<open>\<open>_allocate_ports\<close>; the local \<open>base_port\<close> is written \<open>start_port\<close>. The
  \<open>RuntimeError\<close> raised for a block that is not available is caught by the handler of
  the same function.\<close>

definition allocate_ports ::
    "env \<Rightarrow> ContainerOrchestrator \<Rightarrow> event list \<Rightarrow>
     (exn + unit) \<times> ContainerOrchestrator \<times> event list" where
  "allocate_ports e self tr =
     (let start_port = 8090;
          count = int (length services) in
      case check_sequential_port_block start_port count ''0.0.0.0'' e tr of
        (Inl err, tr1) \<Rightarrow> allocate_except err e self tr1
      | (Inr check_result, tr1) \<Rightarrow>
          if available check_result then
            (let allocated_ports = [start_port..start_port + count - 1] in
             case port_mapping services allocated_ports of
               Inl err \<Rightarrow> allocate_except err e self tr1
             | Inr mapping \<Rightarrow> (Inr (), self\<lparr>ports := mapping\<rparr>, tr1))
          else
            allocate_except
              (RuntimeError (case error_message check_result of None \<Rightarrow> ''None'' | Some m \<Rightarrow> m))
              e self tr1)"

subsection \<open>Health checks\<close>

text \<open>
  With no runtime, \<open>self.runtime.command\<close> raises \<open>AttributeError\<close> inside the
  \<open>try\<close>; the bare \<open>except\<close> returns \<open>False\<close>, as it does for whatever
  \<open>subprocess.run\<close> raises.
\<close>

definition health_check ::
    "string list \<Rightarrow> env \<Rightarrow> ContainerOrchestrator \<Rightarrow> event list \<Rightarrow> bool \<times> event list" where
  "health_check probe_cmd e self tr =
     (case runtime self of
        None \<Rightarrow> (False, tr)
      | Some rt \<Rightarrow>
          (case subprocess_run (rt_command rt # probe_cmd) e tr of
             (Inl err, tr1) \<Rightarrow> (False, tr1)
           | (Inr result, tr1) \<Rightarrow> (returncode result = 0, tr1)))"

definition check_postgres_health ::
    "env \<Rightarrow> ContainerOrchestrator \<Rightarrow> event list \<Rightarrow> bool \<times> event list" where
  "check_postgres_health =
     health_check [''exec'', ''test-postgres'', ''pg_isready'', ''-U'', ''user'', ''-d'', ''testdb'']"

definition check_mongo_health ::
    "env \<Rightarrow> ContainerOrchestrator \<Rightarrow> event list \<Rightarrow> bool \<times> event list" where
  "check_mongo_health =
     health_check [''exec'', ''test-mongo'', ''mongosh'', ''--eval'',
                   ''db.adminCommand('' @ squote @ ''ping'' @ squote @ '')'']"

definition required_containers :: "string list" where
  "required_containers = [''test-postgres'', ''test-mongo'']"

definition check_containers_exist ::
    "env \<Rightarrow> ContainerOrchestrator \<Rightarrow> event list \<Rightarrow> bool \<times> event list" where
  "check_containers_exist e self tr =
     (case runtime self of
        None \<Rightarrow> (False, tr)
      | Some rt \<Rightarrow>
          (case subprocess_run [rt_command rt, ''ps'', ''--format'', ''{{.Names}}''] e tr of
             (Inl err, tr1) \<Rightarrow> (False, tr1)
           | (Inr result, tr1) \<Rightarrow>
               if returncode result \<noteq> 0 then (False, tr1)
               else
                 (let running_containers = str_split (str_strip (stdout result)) newline in
                  if \<not> list_all (\<lambda>container. container \<in> set running_containers)
                           required_containers
                  then (False, tr1)
                  else
                    (case check_postgres_health e self tr1 of
                       (postgres_ok, tr2) \<Rightarrow>
                         if postgres_ok then check_mongo_health e self tr2
                         else (False, tr2)))))"

subsection \<open>Starting\<close>

text \<open>Commands run one after the other, their results ignored, up to the first one
  for which \<open>subprocess.run\<close> raises.\<close>

fun run_each :: "string list list \<Rightarrow> env \<Rightarrow> event list \<Rightarrow> (exn + unit) \<times> event list" where
  "run_each [] e tr = (Inr (), tr)"
| "run_each (argv # rest) e tr =
     (case subprocess_run argv e tr of
        (Inl err, tr1) \<Rightarrow> (Inl err, tr1)
      | (Inr _, tr1) \<Rightarrow> run_each rest e tr1)"

text \<open>\<open>_cleanup_existing_containers\<close>: \<open>except Exception\<close> ends it without raising.\<close>

definition cleanup_existing_containers ::
    "env \<Rightarrow> ContainerOrchestrator \<Rightarrow> event list \<Rightarrow> event list" where
  "cleanup_existing_containers e self tr =
     (case runtime self of
        None \<Rightarrow> tr
      | Some rt \<Rightarrow>
          snd (run_each
                 (concat (map (\<lambda>container. [[rt_command rt, ''stop'', container],
                                             [rt_command rt, ''rm'', container]])
                              [''test-postgres'', ''test-mongo'']) @
                  [[rt_command rt, ''pod'', ''rm'', project_name self]]) e tr))"

definition pod_cmd :: "ContainerOrchestrator \<Rightarrow> int \<Rightarrow> int \<Rightarrow> string list" where
  "pod_cmd self postgres_port mongo_port =
     [''podman'', ''pod'', ''create'', ''--name'', project_name self,
      ''-p'', str postgres_port @ '':'' @ str postgres_port,
      ''-p'', str mongo_port @ '':'' @ str mongo_port]"

definition postgres_cmd :: "env \<Rightarrow> ContainerOrchestrator \<Rightarrow> string list" where
  "postgres_cmd e self =
     [''podman'', ''run'', ''-d'', ''--name'', ''test-postgres'', ''--pod'', project_name self,
      ''-e'', ''POSTGRES_DB=testdb'', ''-e'', ''POSTGRES_USER=user'',
      ''-e'', ''POSTGRES_PASSWORD=password'', ''-e'', ''POSTGRES_HOST_AUTH_METHOD=trust'',
      ''-v'', getcwd e @ ''/init-db.sql:/docker-entrypoint-initdb.d/init-db.sql:Z'',
      ''docker.io/postgres:15'']"

definition mongo_cmd :: "ContainerOrchestrator \<Rightarrow> string list" where
  "mongo_cmd self =
     [''podman'', ''run'', ''-d'', ''--name'', ''test-mongo'', ''--pod'', project_name self,
      ''-e'', ''MONGO_INITDB_ROOT_USERNAME=user'', ''-e'', ''MONGO_INITDB_ROOT_PASSWORD=password'',
      ''-e'', ''MONGO_INITDB_DATABASE=testdb'', ''docker.io/mongo:7.0'']"

text \<open>\<open>_start_podman_containers\<close>: every exception inside is caught and gives
  \<open>False\<close>, a missing key of \<open>self.ports\<close> included.\<close>

definition start_podman_containers ::
    "env \<Rightarrow> ContainerOrchestrator \<Rightarrow> event list \<Rightarrow>
     bool \<times> ContainerOrchestrator \<times> event list" where
  "start_podman_containers e self tr =
     (case check_containers_exist e self tr of
        (exist, tr1) \<Rightarrow>
          if exist then (True, self, tr1)
          else
            (let tr2 = cleanup_existing_containers e self tr1 in
             case (map_of (ports self) ''postgres'', map_of (ports self) ''mongo'') of
               (Some postgres_port, Some mongo_port) \<Rightarrow>
                 (case subprocess_run (pod_cmd self postgres_port mongo_port) e tr2 of
                    (Inl err, tr3) \<Rightarrow> (False, self, tr3)
                  | (Inr pod_result, tr3) \<Rightarrow>
                      if returncode pod_result \<noteq> 0 \<and>
                         \<not> sublist ''already exists'' (stderr pod_result)
                      then (False, self, tr3)
                      else
                        (case subprocess_run (postgres_cmd e self) e tr3 of
                           (Inl err, tr4) \<Rightarrow> (False, self, tr4)
                         | (Inr postgres_result, tr4) \<Rightarrow>
                             if returncode postgres_result \<noteq> 0 then (False, self, tr4)
                             else
                               (let self1 = self\<lparr>containers := containers self @ [''test-postgres'']\<rparr> in
                                case subprocess_run (mongo_cmd self1) e tr4 of
                                  (Inl err, tr5) \<Rightarrow> (False, self1, tr5)
                                | (Inr mongo_result, tr5) \<Rightarrow>
                                    if returncode mongo_result \<noteq> 0 then (False, self1, tr5)
                                    else (True,
                                          self1\<lparr>containers := containers self1 @ [''test-mongo'']\<rparr>,
                                          tr5))))
             | _ \<Rightarrow> (False, self, tr2)))"

text \<open>\<open>_get_port_env_vars\<close>.\<close>

definition get_port_env_vars :: "ContainerOrchestrator \<Rightarrow> (string \<times> string) list" where
  "get_port_env_vars self =
     (let env_vars = fold (\<lambda>(service, p). dict_set (str_upper service @ ''_PORT'') (str p))
                          (ports self) [] in
      case map_of (ports self) ''app'' of
        Some app_port \<Rightarrow> dict_set ''HTTP_SERVER_PORT'' (str app_port) env_vars
      | None \<Rightarrow> env_vars)"

text \<open>The manifest \<open>create_podman_compose_file\<close> writes, line by line.\<close>

definition compose_content :: "int \<Rightarrow> int \<Rightarrow> string" where
  "compose_content postgres_port mongo_port =
     concat (map (\<lambda>line. line @ newline)
       [''version: '' @ squote @ ''3.8'' @ squote,
        '''',
        ''services:'',
        ''  postgres:'',
        ''    image: docker.io/postgres:15'',
        ''    container_name: test-postgres'',
        ''    environment:'',
        ''      POSTGRES_DB: testdb'',
        ''      POSTGRES_USER: user'',
        ''      POSTGRES_PASSWORD: password'',
        ''      POSTGRES_HOST_AUTH_METHOD: trust'',
        ''    ports:'',
        ''      - '' @ dquote @ str postgres_port @ '':'' @ str postgres_port @ dquote,
        ''    volumes:'',
        ''      - postgres_data:/var/lib/postgresql/data'',
        ''      - ./init-db.sql:/docker-entrypoint-initdb.d/init-db.sql'',
        ''    healthcheck:'',
        ''      test: ['' @ dquote @ ''CMD-SHELL'' @ dquote @ '', '' @
                  dquote @ ''pg_isready -U user -d testdb'' @ dquote @ '']'',
        ''      interval: 10s'',
        ''      timeout: 5s'',
        ''      retries: 5'',
        '''',
        ''  mongo:'',
        ''    image: docker.io/mongo:7.0'',
        ''    container_name: test-mongo'',
        ''    environment:'',
        ''      MONGO_INITDB_ROOT_USERNAME: user'',
        ''      MONGO_INITDB_ROOT_PASSWORD: password'',
        ''      MONGO_INITDB_DATABASE: testdb'',
        ''    ports:'',
        ''      - '' @ dquote @ str mongo_port @ '':'' @ str mongo_port @ dquote,
        ''    volumes:'',
        ''      - mongo_data:/data/db'',
        ''    healthcheck:'',
        ''      test: ['' @ dquote @ ''CMD'' @ dquote @ '', '' @ dquote @ ''mongosh'' @ dquote @
                  '', '' @ dquote @ ''--eval'' @ dquote @ '', '' @
                  dquote @ ''db.adminCommand('' @ squote @ ''ping'' @ squote @ '')'' @ dquote @ '']'',
        ''      interval: 10s'',
        ''      timeout: 5s'',
        ''      retries: 5'',
        '''',
        ''volumes:'',
        ''  postgres_data:'',
        ''  mongo_data:''])"

text \<open>\<open>create_podman_compose_file\<close>; writing the file is modelled as succeeding.\<close>

definition create_podman_compose_file ::
    "ContainerOrchestrator \<Rightarrow> event list \<Rightarrow> string \<times> event list" where
  "create_podman_compose_file self tr =
     (let postgres_port = (case map_of (ports self) ''postgres'' of Some p \<Rightarrow> p | None \<Rightarrow> 5432);
          mongo_port = (case map_of (ports self) ''mongo'' of Some p \<Rightarrow> p | None \<Rightarrow> 27017);
          podman_compose_file = ''podman-compose.test.yml'' in
      (podman_compose_file,
       tr @ [WriteFile podman_compose_file (compose_content postgres_port mongo_port)]))"

definition start_compose_containers ::
    "env \<Rightarrow> ContainerOrchestrator \<Rightarrow> event list \<Rightarrow>
     bool \<times> ContainerOrchestrator \<times> event list" where
  "start_compose_containers e self tr =
     (case runtime self of
        None \<Rightarrow> (False, self, tr)
      | Some rt \<Rightarrow>
          (case (if rt_name rt = ''podman''
                 then (case create_podman_compose_file self tr of
                         (written, tr1) \<Rightarrow> (self\<lparr>compose_file := written\<rparr>, tr1))
                 else (self, tr)) of
             (self1, tr1) \<Rightarrow>
               (let compose_cmd = str_split_ws (rt_compose_command rt);
                    cmd = compose_cmd @ [''-f'', compose_file self1, ''up'', ''--build'', ''-d''] in
                case subprocess_run_env cmd (get_port_env_vars self1) e tr1 of
                  (Inl err, tr2) \<Rightarrow> (False, self1, tr2)
                | (Inr result, tr2) \<Rightarrow>
                    if returncode result \<noteq> 0 then (False, self1, tr2)
                    else (True, self1, tr2))))"

text \<open>
  \<open>start_containers\<close>. \<open>detect_runtime\<close> is called outside the \<open>try\<close>, so what it
  raises is raised by \<open>start_containers\<close>; everything after it is inside, and
  \<open>except Exception\<close> returns \<open>False\<close>.
\<close>

definition start_containers ::
    "env \<Rightarrow> ContainerOrchestrator \<Rightarrow> event list \<Rightarrow>
     (exn + bool) \<times> ContainerOrchestrator \<times> event list" where
  "start_containers e self tr =
     (case (if runtime self = None
            then (case detect_runtime e self tr of
                    (Inl err, self1, tr1) \<Rightarrow> (Some err, self1, tr1)
                  | (Inr _, self1, tr1) \<Rightarrow> (None, self1, tr1))
            else (None, self, tr)) of
        (Some err, self1, tr1) \<Rightarrow> (Inl err, self1, tr1)
      | (None, self1, tr1) \<Rightarrow>
          (case allocate_ports e self1 tr1 of
             (Inl err, self2, tr2) \<Rightarrow> (Inr False, self2, tr2)
           | (Inr _, self2, tr2) \<Rightarrow>
               (case runtime self2 of
                  None \<Rightarrow> (Inr False, self2, tr2)
                | Some rt \<Rightarrow>
                    if rt_name rt = ''podman''
                    then (case start_podman_containers e self2 tr2 of
                            (started, self3, tr3) \<Rightarrow> (Inr started, self3, tr3))
                    else (case start_compose_containers e self2 tr2 of
                            (started, self3, tr3) \<Rightarrow> (Inr started, self3, tr3)))))"

subsection \<open>Cleanup\<close>

text \<open>The body of the \<open>try\<close> of \<open>cleanup\<close>: with no runtime,
  \<open>self.runtime.name\<close> raises \<open>AttributeError\<close>.\<close>

definition cleanup_body ::
    "env \<Rightarrow> ContainerOrchestrator \<Rightarrow> event list \<Rightarrow> (exn + unit) \<times> event list" where
  "cleanup_body e self tr =
     (case runtime self of
        None \<Rightarrow> (Inl (AttributeError (squote @ ''NoneType'' @ squote @
                         '' object has no attribute '' @ squote @ ''name'' @ squote)), tr)
      | Some rt \<Rightarrow>
          if rt_name rt = ''podman'' then
            run_each
              (concat (map (\<lambda>container. [[''podman'', ''stop'', container],
                                          [''podman'', ''rm'', container]])
                           (containers self)) @
               [[''podman'', ''pod'', ''rm'', project_name self]]) e tr
          else
            (let compose_cmd = str_split_ws (rt_compose_command rt);
                 cmd = compose_cmd @ [''-f'', compose_file self, ''down'', ''-v''] in
             case subprocess_run cmd e tr of
               (Inl err, tr1) \<Rightarrow> (Inl err, tr1)
             | (Inr _, tr1) \<Rightarrow> (Inr (), tr1)))"

text \<open>\<open>cleanup\<close>: \<open>except Exception\<close> swallows what the body raises; the method then
  returns \<open>None\<close>.\<close>

definition cleanup ::
    "env \<Rightarrow> ContainerOrchestrator \<Rightarrow> event list \<Rightarrow> (exn + unit) \<times> event list" where
  "cleanup e self tr =
     (case cleanup_body e self tr of
        (Inl err, tr1) \<Rightarrow> (Inr (), tr1)
      | (Inr _, tr1) \<Rightarrow> (Inr (), tr1))"

subsection \<open>Vocabulary for the properties\<close>

text \<open>A command that stops or removes a container or the pod, or creates one
  (\<open>stop\<close>, \<open>rm\<close>, \<open>run\<close>, \<open>pod create\<close>, \<open>pod rm\<close>, or a compose command).\<close>

definition removes_or_creates :: "event \<Rightarrow> bool" where
  "removes_or_creates ev =
     (case ev of
        Run argv \<Rightarrow>
          (case argv of
             c # verb # rest \<Rightarrow> verb = ''stop'' \<or> verb = ''rm'' \<or> verb = ''run'' \<or> verb = ''pod''
           | _ \<Rightarrow> False)
      | RunEnv argv vars \<Rightarrow> True
      | _ \<Rightarrow> False)"

text \<open>
  The required containers exist and are healthy, whatever has been done before: the
  listing succeeds and names both, and both readiness probes succeed.
\<close>

definition containers_healthy :: "env \<Rightarrow> ContainerRuntime \<Rightarrow> bool" where
  "containers_healthy e rt \<longleftrightarrow>
     (\<forall>tr. \<exists>result. subprocess e tr [rt_command rt, ''ps'', ''--format'', ''{{.Names}}''] = Inr result \<and>
            returncode result = 0 \<and>
            ''test-postgres'' \<in> set (str_split (str_strip (stdout result)) newline) \<and>
            ''test-mongo'' \<in> set (str_split (str_strip (stdout result)) newline)) \<and>
     (\<forall>tr. \<exists>result. subprocess e tr [rt_command rt, ''exec'', ''test-postgres'', ''pg_isready'',
                                       ''-U'', ''user'', ''-d'', ''testdb''] = Inr result \<and>
            returncode result = 0) \<and>
     (\<forall>tr. \<exists>result. subprocess e tr [rt_command rt, ''exec'', ''test-mongo'', ''mongosh'', ''--eval'',
                                       ''db.adminCommand('' @ squote @ ''ping'' @ squote @ '')''] =
                       Inr result \<and>
            returncode result = 0)"

text \<open>The events \<open>tr'\<close> extend \<open>tr\<close> by none that removes or creates.\<close>

definition harmless :: "event list \<Rightarrow> event list \<Rightarrow> bool" where
  "harmless tr tr' \<longleftrightarrow> (\<exists>new. tr' = tr @ new \<and> (\<forall>ev\<in>set new. \<not> removes_or_creates ev))"

text \<open>
  A Linux host on which the two required containers run under the runtime command
  \<open>cmd\<close> and are ready, the ports in \<open>taken\<close> are bound, no inspection tool is
  installed, and a compose command fails.
\<close>

definition names_listing :: string where
  "names_listing = ''test-postgres'' @ newline @ ''test-mongo'' @ newline"

definition container_host :: "string \<Rightarrow> int list \<Rightarrow> env" where
  "container_host cmd taken =
     \<lparr>platform = ''linux'', getcwd = ''/srv/harness'', resolves = (\<lambda>h. True),
      bindable = (\<lambda>h p. p \<notin> set taken),
      subprocess = (\<lambda>tr argv.
         if argv = [cmd, ''ps'', ''--format'', ''{{.Names}}'']
         then Inr \<lparr>returncode = 0,
                   stdout = names_listing,
                   stderr = ''''\<rparr>
         else if take 2 argv = [cmd, ''exec'']
         then Inr \<lparr>returncode = 0, stdout = '''', stderr = ''''\<rparr>
         else Inl FileNotFoundError),
      subprocess_env = (\<lambda>tr argv vars.
         Inr \<lparr>returncode = 1, stdout = '''', stderr = ''compose failed''\<rparr>)\<rparr>"

definition podman_runtime :: ContainerRuntime where
  "podman_runtime =
     \<lparr>rt_name = ''podman'', rt_command = ''podman'', rt_compose_command = ''podman'',
      rt_available = True, rt_version = ''podman version 4.9.3''\<rparr>"

definition docker_runtime :: ContainerRuntime where
  "docker_runtime =
     \<lparr>rt_name = ''docker'', rt_command = ''docker'', rt_compose_command = ''docker-compose'',
      rt_available = True, rt_version = ''Docker version 24.0.7''\<rparr>"

text \<open>The orchestrator after a first successful start under Podman, and one under Docker.\<close>

definition started_podman :: ContainerOrchestrator where
  "started_podman =
     new_orchestrator\<lparr>runtime := Some podman_runtime,
                       containers := [''test-postgres'', ''test-mongo''],
                       ports := [(''app'', 8090), (''postgres'', 8091), (''mongo'', 8092)]\<rparr>"

definition started_docker :: ContainerOrchestrator where
  "started_docker =
     new_orchestrator\<lparr>runtime := Some docker_runtime,
                       ports := [(''app'', 8090), (''postgres'', 8091), (''mongo'', 8092)]\<rparr>"

text \<open>A host on which every command completes with exit status 1: the containers and
  the pod it is asked about are gone.\<close>

definition gone_host :: env where
  "gone_host =
     \<lparr>platform = ''linux'', getcwd = ''/srv/harness'', resolves = (\<lambda>h. True),
      bindable = (\<lambda>h p. True),
      subprocess = (\<lambda>tr argv.
         Inr \<lparr>returncode = 1, stdout = '''', stderr = ''Error: no such container''\<rparr>),
      subprocess_env = (\<lambda>tr argv vars.
         Inr \<lparr>returncode = 1, stdout = '''', stderr = ''Error: no such container''\<rparr>)\<rparr>"
section \<open>Properties of the string operations\<close>

lemma digit_char_in: "d < 10 \<Longrightarrow> digit_char d \<in> set ''0123456789''"
proof -
  assume "d < 10"
  then have "d \<in> {0,1,2,3,4,5,6,7,8,9}" by auto
  then show ?thesis by (auto simp: digit_char_def)
qed

lemma decimal_chars: "decimal n \<noteq> [] \<and> set (decimal n) \<subseteq> set ''0123456789''"
proof (induction n rule: decimal.induct)
  case (1 n)
  show ?case
  proof (cases "n < 10")
    case True
    with digit_char_in [of n] show ?thesis by (simp add: decimal.simps [of n])
  next
    case False
    have "n mod 10 < 10" by simp
    from digit_char_in [OF this] 1 False show ?thesis
      by (simp add: decimal.simps [of n])
  qed
qed

lemma str_nonempty: "str i \<noteq> []"
  using decimal_chars by (simp add: str_def)

lemma str_chars: "set (str i) \<subseteq> set ''-0123456789''"
proof (cases "i < 0")
  case True
  have "set (decimal (nat (- i))) \<subseteq> set ''0123456789''" using decimal_chars by blast
  then have "set (CHR ''-'' # decimal (nat (- i))) \<subseteq> set (CHR ''-'' # ''0123456789'')"
    unfolding list.set(2) by (rule insert_mono)
  with True show ?thesis unfolding str_def by (simp only: if_True)
next
  case False
  have "set (decimal (nat i)) \<subseteq> set ''0123456789''" using decimal_chars by blast
  also have "\<dots> \<subseteq> set (CHR ''-'' # ''0123456789'')" by (rule set_subset_Cons)
  finally show ?thesis using False unfolding str_def by (simp only: if_False)
qed

lemma sign_digit_not_in_phrase:
  "c \<in> set ''-0123456789'' \<Longrightarrow> c \<notin> set ''already in use (''"
  by auto

lemma str_hd: "\<exists>c cs. str i = c # cs \<and> c \<in> set ''-0123456789''"
proof -
  obtain c cs where eq: "str i = c # cs" using str_nonempty [of i] by (cases "str i") auto
  then have "c \<in> set (str i)" by simp
  then have "c \<in> set ''-0123456789''" by (rule subsetD [OF str_chars])
  with eq show ?thesis by blast
qed

lemma split_from_skip:
  assumes "c \<notin> set pre"
  shows "split_from (c # sep) piece (pre @ rest) = split_from (c # sep) (piece @ pre) rest"
  using assms by (induction pre arbitrary: piece) auto

lemma split_from_hd: "\<exists>x xs. split_from sep piece s = x # xs \<and> prefix piece x"
proof (induction sep piece s rule: split_from.induct)
  case (1 sep piece)
  then show ?case by simp
next
  case (2 sep piece c cs)
  show ?case
  proof (cases "sep \<noteq> [] \<and> prefix sep (c # cs)")
    case True
    then show ?thesis by simp
  next
    case False
    with 2(2) obtain x xs where "split_from sep (piece @ [c]) cs = x # xs" "prefix (piece @ [c]) x"
      by auto
    with False show ?thesis by (auto dest: append_prefixD)
  qed
qed

lemma join_split_from:
  "sep \<noteq> [] \<Longrightarrow> str_join sep (split_from sep piece s) = piece @ s"
proof (induction sep piece s rule: split_from.induct)
  case (1 sep piece)
  then show ?case by simp
next
  case (2 sep piece c cs)
  show ?case
  proof (cases "prefix sep (c # cs)")
    case True
    obtain x xs where x: "split_from sep [] (drop (length sep) (c # cs)) = x # xs"
      using split_from_hd by blast
    from True have "sep @ drop (length sep) (c # cs) = c # cs"
      by (metis append_eq_conv_conj prefix_def)
    with 2 True x show ?thesis by simp
  next
    case False
    with 2 show ?thesis by simp
  qed
qed

lemma split_from_none:
  "\<not> sublist sep s \<Longrightarrow> split_from sep piece s = [piece @ s]"
proof (induction s arbitrary: piece)
  case Nil
  then show ?case by simp
next
  case (Cons c cs)
  then have "\<not> prefix sep (c # cs)" "\<not> sublist sep cs"
    by (auto simp: sublist_Cons_right)
  with Cons.IH [of "piece @ [c]"] show ?case by simp
qed

lemma port_description_id: "port_description port_str = port_str"
proof -
  let ?sep = "'' already in use''"
  have j: "str_join ?sep (str_split port_str ?sep) = port_str"
    unfolding str_split_def using join_split_from [of ?sep "[]" port_str] by simp
  show ?thesis
  proof (cases "length (str_split port_str ?sep) = 2")
    case True
    then obtain a b where ab: "str_split port_str ?sep = [a, b]"
      by (auto simp: length_Suc_conv numeral_2_eq_2)
    with j have "a @ ?sep @ b = port_str" by simp
    with ab show ?thesis by (simp add: port_description_def Let_def)
  next
    case False
    then show ?thesis by (simp add: port_description_def Let_def)
  qed
qed

lemma sublist_str_join: "x \<in> set xs \<Longrightarrow> sublist x (str_join sep xs)"
proof (induction sep xs rule: str_join.induct)
  case (1 sep)
  then show ?case by simp
next
  case (2 sep y)
  then show ?case by simp
next
  case (3 sep y z zs)
  show ?case
  proof (cases "x = y")
    case True
    then show ?thesis by simp
  next
    case False
    with 3 have "sublist x (str_join sep (z # zs))" by simp
    then obtain ps ss where "str_join sep (z # zs) = ps @ x @ ss"
      by (auto simp: sublist_def)
    then have "str_join sep (y # z # zs) = (y @ sep @ ps) @ x @ ss" by simp
    then show ?thesis unfolding sublist_def by blast
  qed
qed

section \<open>Properties of the port probe and the search\<close>

lemma is_port_available_probe:
  "is_port_available port host e tr = (probe e host port, tr @ [Bind host port])"
  by (simp add: is_port_available_def probe_def split: sum.splits)

lemma probe_in_range:
  assumes "0 \<le> port" "port \<le> 65535"
  shows "probe e host port = Inr (resolves e host \<and> bindable e host port)"
  using assms by (simp add: probe_def is_port_available_def socket_bind_def)

lemma probe_cases:
  obtains (free) "probe e host port = Inr True"
  | (busy) "probe e host port = Inr False"
  | (raised) msg where "probe e host port = Inl (OverflowError msg)"
    "port < 0 \<or> 65535 < port"
proof (cases "port < 0 \<or> 65535 < port")
  case range: True
  show ?thesis
  proof (cases "probe e host port = Inr False")
    case True
    then show ?thesis by (rule busy)
  next
    case False
    with range have "probe e host port = Inl (OverflowError ''bind(): port must be 0-65535.'')"
      by (auto simp: probe_def is_port_available_def socket_bind_def split: if_splits)
    from this range show ?thesis by (rule raised)
  qed
next
  case range: False
  then have eq: "probe e host port = Inr (resolves e host \<and> bindable e host port)"
    by (simp add: probe_in_range)
  show ?thesis
  proof (cases "resolves e host \<and> bindable e host port")
    case True
    with eq have "probe e host port = Inr True" by simp
    then show ?thesis by (rule free)
  next
    case False
    with eq have "probe e host port = Inr False" by simp
    then show ?thesis by (rule busy)
  qed
qed

lemma map_py_range: "map ((+) p) (py_range count) = [p..p + count - 1]"
proof (rule nth_equalityI)
  show "length (map ((+) p) (py_range count)) = length [p..p + count - 1]"
    by (simp add: py_range_def)
next
  fix i assume "i < length (map ((+) p) (py_range count))"
  then have "i < nat count" by (simp add: py_range_def)
  then show "map ((+) p) (py_range count) ! i = [p..p + count - 1] ! i"
    by (simp add: py_range_def)
qed

lemma set_py_range: "set (py_range count) = {0..<count}"
proof -
  have "set (py_range count) = int ` {0..<nat count}" by (simp add: py_range_def)
  also have "\<dots> = {int 0..<int (nat count)}" by (rule image_int_atLeastLessThan)
  also have "\<dots> = {0..<count}" by (cases "0 \<le> count") simp_all
  finally show ?thesis .
qed

lemma scan_window_result:
  assumes "scan_window c host e offsets found tr = (r, tr')"
  shows "case r of
           Inl err \<Rightarrow> \<exists>i\<in>set offsets. probe e host (c + i) = Inl err
         | Inr (ps, ok) \<Rightarrow>
             if ok then ps = found @ map ((+) c) offsets \<and> (\<forall>i\<in>set offsets. port_free e host (c + i))
             else \<exists>i\<in>set offsets. port_busy e host (c + i)"
  using assms
proof (induction offsets arbitrary: found tr)
  case Nil
  then show ?case by auto
next
  case (Cons i rest)
  show ?case
  proof (cases rule: probe_cases [of e host "c + i"])
    case free
    with Cons.prems have "scan_window c host e rest (found @ [c + i]) (tr @ [Bind host (c + i)]) = (r, tr')"
      by (simp add: is_port_available_probe Let_def)
    from Cons.IH [OF this] free show ?thesis
      by (auto simp: port_free_def split: sum.splits prod.splits if_splits)
  next
    case busy
    with Cons.prems show ?thesis
      by (auto simp: is_port_available_probe port_busy_def Let_def)
  next
    case (raised msg)
    with Cons.prems show ?thesis
      by (auto simp: is_port_available_probe Let_def)
  qed
qed

lemma scan_window_total:
  assumes "\<forall>i\<in>set offsets. \<exists>b. probe e host (c + i) = Inr b"
  shows "\<exists>ps ok tr'. scan_window c host e offsets found tr = (Inr (ps, ok), tr')"
  using assms
proof (induction offsets arbitrary: found tr)
  case Nil
  then show ?case by auto
next
  case (Cons i rest)
  then obtain b where b: "probe e host (c + i) = Inr b" by auto
  show ?case
  proof (cases b)
    case True
    from Cons.IH [of "found @ [c + i]" "tr @ [Bind host (c + i)]"] Cons.prems
    show ?thesis using b True by (simp add: is_port_available_probe Let_def)
  next
    case False
    with b show ?thesis by (auto simp: is_port_available_probe Let_def)
  qed
qed

lemma search_ports_sound:
  assumes "1 \<le> count" and "search_ports n cur count host e tr = (Inr (Some found), tr')"
  shows "\<exists>p. cur \<le> p \<and> p < cur + int n \<and> found = [p..p + count - 1] \<and>
             (\<forall>q\<in>{p..p + count - 1}. port_free e host q) \<and>
             (\<forall>s. cur \<le> s \<and> s < p \<longrightarrow> (\<exists>q\<in>{s..s + count - 1}. port_busy e host q))"
  using assms(2)
proof (induction n arbitrary: cur tr)
  case 0
  then show ?case by simp
next
  case (Suc n)
  obtain r tr1 where scan: "scan_window cur host e (py_range count) [] tr = (r, tr1)"
    by (cases "scan_window cur host e (py_range count) [] tr")
  note res = scan_window_result [OF scan]
  show ?case
  proof (cases r)
    case (Inl err)
    with Suc.prems scan show ?thesis by simp
  next
    case (Inr pr)
    obtain ps ok where pr: "pr = (ps, ok)" by (cases pr)
    show ?thesis
    proof (cases ok)
      case True
      with res Inr pr have ps: "ps = [cur..cur + count - 1]"
        and free: "\<forall>i\<in>set (py_range count). port_free e host (cur + i)"
        by (simp_all add: map_py_range)
      from ps assms(1) have "int (length ps) = count" by simp
      with Suc.prems scan Inr pr True have "found = ps" by simp
      moreover have "\<forall>q\<in>{cur..cur + count - 1}. port_free e host q"
      proof
        fix q assume "q \<in> {cur..cur + count - 1}"
        then have "q - cur \<in> set (py_range count)" by (simp add: set_py_range)
        with free have "port_free e host (cur + (q - cur))" by blast
        then show "port_free e host q" by simp
      qed
      ultimately show ?thesis using ps by (intro exI [of _ cur]) auto
    next
      case False
      with res Inr pr obtain i where i: "i \<in> set (py_range count)" "port_busy e host (cur + i)"
        by auto
      then have busy_cur: "\<exists>q\<in>{cur..cur + count - 1}. port_busy e host q"
        by (intro bexI [of _ "cur + i"]) (auto simp: set_py_range)
      from Suc.prems scan Inr pr False
      have rec: "search_ports n (cur + 1) count host e tr1 = (Inr (Some found), tr')"
        by (simp add: Let_def split: if_splits)
      from Suc.IH [OF rec] obtain p where p: "cur + 1 \<le> p" "p < cur + 1 + int n"
        "found = [p..p + count - 1]" "\<forall>q\<in>{p..p + count - 1}. port_free e host q"
        "\<forall>s. cur + 1 \<le> s \<and> s < p \<longrightarrow> (\<exists>q\<in>{s..s + count - 1}. port_busy e host q)"
        by blast
      have "\<forall>s. cur \<le> s \<and> s < p \<longrightarrow> (\<exists>q\<in>{s..s + count - 1}. port_busy e host q)"
      proof (intro allI impI)
        fix s assume s: "cur \<le> s \<and> s < p"
        show "\<exists>q\<in>{s..s + count - 1}. port_busy e host q"
        proof (cases "s = cur")
          case True
          with busy_cur show ?thesis by simp
        next
          case False
          with s have "cur + 1 \<le> s \<and> s < p" by simp
          with p(5) show ?thesis by blast
        qed
      qed
      with p show ?thesis by (intro exI [of _ p]) auto
    qed
  qed
qed

lemma search_ports_complete:
  assumes "1 \<le> count" "0 \<le> cur" "cur \<le> p" "p < cur + int n" "p + count - 1 \<le> 65535"
    and "\<forall>q\<in>{p..p + count - 1}. port_free e host q"
  shows "\<exists>found tr'. search_ports n cur count host e tr = (Inr (Some found), tr')"
  using assms(2-4)
proof (induction n arbitrary: cur tr)
  case 0
  then show ?case by simp
next
  case (Suc n)
  have "\<forall>i\<in>set (py_range count). \<exists>b. probe e host (cur + i) = Inr b"
  proof
    fix i assume "i \<in> set (py_range count)"
    then have "0 \<le> cur + i" "cur + i \<le> 65535"
      using Suc.prems assms(5) by (auto simp: set_py_range)
    then show "\<exists>b. probe e host (cur + i) = Inr b" by (simp add: probe_in_range)
  qed
  from scan_window_total [OF this]
  obtain ps ok tr1 where scan: "scan_window cur host e (py_range count) [] tr = (Inr (ps, ok), tr1)"
    by blast
  note res = scan_window_result [OF scan]
  show ?case
  proof (cases "ok \<and> int (length ps) = count")
    case True
    with scan show ?thesis by simp
  next
    case False
    have "cur \<noteq> p"
    proof
      assume "cur = p"
      have "\<forall>i\<in>set (py_range count). port_free e host (cur + i)"
      proof
        fix i assume "i \<in> set (py_range count)"
        then have "cur + i \<in> {p..p + count - 1}" using \<open>cur = p\<close> by (auto simp: set_py_range)
        with assms(6) show "port_free e host (cur + i)" by blast
      qed
      with res have "ok" and "ps = [cur..cur + count - 1]"
        by (auto simp: port_free_def port_busy_def map_py_range split: if_splits)
      with assms(1) have "ok \<and> int (length ps) = count" by simp
      with False show False by contradiction
    qed
    with Suc.prems have lt: "cur + 1 \<le> p" by simp
    with assms(5) have "\<not> cur + 1 + count - 1 > 65535" by simp
    with scan False
    have "search_ports (Suc n) cur count host e tr = search_ports n (cur + 1) count host e tr1"
      by (auto simp: Let_def)
    moreover from Suc.prems lt have "0 \<le> cur + 1" "p < cur + 1 + int n" by simp_all
    from Suc.IH [OF this(1) lt this(2)]
    have "\<exists>found tr'. search_ports n (cur + 1) count host e tr1 = (Inr (Some found), tr')" .
    ultimately show ?thesis by simp
  qed
qed

text \<open>
  Claim C3. When \<open>find_sequential_ports\<close> returns a list, \<open>count\<close> is at least 1 and
  the list is \<open>[p, p+1, ..., p+count-1]\<close> for the smallest \<open>p \<ge> base\<close>, among the
  1000 starts \<open>base, ..., base+999\<close>, whose whole window probes as available: every port
  of the window is free, every window starting at \<open>s\<close> with \<open>base \<le> s < p\<close> holds a
  busy port, and \<open>p\<close> is above \<open>base\<close> when the window at \<open>base\<close> holds a busy port.
  The list has \<open>count\<close> elements, each the previous one plus 1. Conversely the search
  does return when \<open>base \<ge> 0\<close> and some window within the budget and within the port
  range is all free.
\<close>

theorem C3_find_sequential_ports:
  "(\<forall>found tr'. find_sequential_ports base count host e tr = (Inr found, tr') \<longrightarrow>
      1 \<le> count \<and>
      (\<exists>p. found = [p..p + count - 1] \<and> base \<le> p \<and> p < base + 1000 \<and>
           (\<forall>q\<in>{p..p + count - 1}. port_free e host q) \<and>
           (\<forall>s. base \<le> s \<and> s < p \<longrightarrow> (\<exists>q\<in>{s..s + count - 1}. port_busy e host q)) \<and>
           ((\<exists>q\<in>{base..base + count - 1}. port_busy e host q) \<longrightarrow> base < p)) \<and>
      length found = nat count \<and>
      (\<forall>i. Suc i < length found \<longrightarrow> found ! Suc i = found ! i + 1)) \<and>
   (1 \<le> count \<and> 0 \<le> base \<and>
    (\<exists>p. base \<le> p \<and> p < base + 1000 \<and> p + count - 1 \<le> 65535 \<and>
         (\<forall>q\<in>{p..p + count - 1}. port_free e host q)) \<longrightarrow>
      (\<exists>found tr'. find_sequential_ports base count host e tr = (Inr found, tr')))"
proof (intro conjI allI impI)
  fix found tr'
  assume ret: "find_sequential_ports base count host e tr = (Inr found, tr')"
  then show count: "1 \<le> count"
    by (simp add: find_sequential_ports_def split: if_splits)
  with ret have "search_ports max_attempts base count host e tr = (Inr (Some found), tr')"
    by (auto simp: find_sequential_ports_def split: prod.splits sum.splits option.splits)
  from search_ports_sound [OF count this]
  obtain p where p: "base \<le> p" "p < base + int max_attempts" "found = [p..p + count - 1]"
    "\<forall>q\<in>{p..p + count - 1}. port_free e host q"
    "\<forall>s. base \<le> s \<and> s < p \<longrightarrow> (\<exists>q\<in>{s..s + count - 1}. port_busy e host q)"
    by blast
  have "(\<exists>q\<in>{base..base + count - 1}. port_busy e host q) \<longrightarrow> base < p"
  proof
    assume "\<exists>q\<in>{base..base + count - 1}. port_busy e host q"
    then obtain q where "q \<in> {base..base + count - 1}" "port_busy e host q" by blast
    with p(4) have "p \<noteq> base" by (auto simp: port_free_def port_busy_def)
    with p(1) show "base < p" by simp
  qed
  with p show "\<exists>p. found = [p..p + count - 1] \<and> base \<le> p \<and> p < base + 1000 \<and>
           (\<forall>q\<in>{p..p + count - 1}. port_free e host q) \<and>
           (\<forall>s. base \<le> s \<and> s < p \<longrightarrow> (\<exists>q\<in>{s..s + count - 1}. port_busy e host q)) \<and>
           ((\<exists>q\<in>{base..base + count - 1}. port_busy e host q) \<longrightarrow> base < p)"
    by (intro exI [of _ p]) (simp add: max_attempts_def)
  from p(3) show "length found = nat count" by simp
  show "found ! Suc i = found ! i + 1" if "Suc i < length found" for i
  proof -
    from that p(3) have "p + int (Suc i) \<le> p + count - 1" "p + int i \<le> p + count - 1" by simp_all
    then show ?thesis unfolding p(3) by (simp only: nth_upto)
  qed
next
  assume a: "1 \<le> count \<and> 0 \<le> base \<and>
    (\<exists>p. base \<le> p \<and> p < base + 1000 \<and> p + count - 1 \<le> 65535 \<and>
         (\<forall>q\<in>{p..p + count - 1}. port_free e host q))"
  then obtain p where p: "base \<le> p" "p < base + int max_attempts" "p + count - 1 \<le> 65535"
    "\<forall>q\<in>{p..p + count - 1}. port_free e host q"
    by (auto simp: max_attempts_def)
  from a have "1 \<le> count" "0 \<le> base" by simp_all
  from search_ports_complete [OF this p(1,2,3,4)]
  obtain found tr' where "search_ports max_attempts base count host e tr = (Inr (Some found), tr')"
    by blast
  with \<open>1 \<le> count\<close> show "\<exists>found tr'. find_sequential_ports base count host e tr = (Inr found, tr')"
    by (simp add: find_sequential_ports_def)
qed

text \<open>
  Claim C6. For \<open>count < 1\<close> the check returns \<open>available = False\<close>, the range
  \<open>(base, base+count-1)\<close>, no busy ports and the message \<open>Count must be at least 1\<close>;
  for \<open>count \<ge> 1\<close> with \<open>base+count-1 > 65535\<close> it returns \<open>available = False\<close>,
  the range, no busy ports and the message that the range exceeds the maximum port number
  65535. In both cases the events are unchanged: no port is probed and no command is run.
\<close>

theorem C6_input_validation:
  "(count < 1 \<longrightarrow>
      check_sequential_port_block base count host e tr =
        (Inr \<lparr>available = False, requested_range = (base, base + count - 1), busy_ports = [],
              error_message = Some ''Count must be at least 1''\<rparr>, tr)) \<and>
   (1 \<le> count \<and> 65535 < base + count - 1 \<longrightarrow>
      check_sequential_port_block base count host e tr =
        (Inr \<lparr>available = False, requested_range = (base, base + count - 1), busy_ports = [],
              error_message = Some (''Port range '' @ str base @ ''-'' @ str (base + count - 1) @
                                    '' exceeds maximum port number 65535'')\<rparr>, tr))"
  by (simp add: check_sequential_port_block_def Let_def)

section \<open>Properties of the block check\<close>

lemma try_lsof_described:
  "try_lsof port e tr = (Inr (Some d), tr') \<Longrightarrow> d \<noteq> []"
  by (auto simp: try_lsof_def Let_def split: prod.splits sum.splits if_splits)

lemma netstat_lines_described:
  "netstat_lines port ls = Inr (Some d) \<Longrightarrow> d \<noteq> []"
  by (induction ls) (auto simp: Let_def split: if_splits list.splits)

lemma try_netstat_described:
  "try_netstat port e tr = (Inr (Some d), tr') \<Longrightarrow> d \<noteq> []"
  by (auto simp: try_netstat_def split: prod.splits sum.splits if_splits
           dest: netstat_lines_described)

lemma ss_lines_described:
  "ss_lines port ls = Some d \<Longrightarrow> d \<noteq> []"
  by (induction ls) (auto simp: Let_def split: if_splits)

lemma try_ss_described:
  "try_ss port e tr = (Inr (Some d), tr') \<Longrightarrow> d \<noteq> []"
  by (auto simp: try_ss_def split: prod.splits sum.splits if_splits
           dest: ss_lines_described)

lemma try_tasklist_described:
  "try_tasklist pid e tr = (Inr (Some d), tr') \<Longrightarrow> d \<noteq> []"
  by (auto simp: try_tasklist_def Let_def split: prod.splits sum.splits if_splits list.splits)

lemma windows_lines_described:
  "windows_lines port ls e tr = (Inr (Some d), tr') \<Longrightarrow> d \<noteq> []"
  by (induction ls)
     (auto simp: Let_def split: if_splits prod.splits sum.splits option.splits
           dest: try_tasklist_described)

lemma try_windows_described:
  "try_windows port e tr = (Inr (Some d), tr') \<Longrightarrow> d \<noteq> []"
  by (auto simp: try_windows_def split: prod.splits sum.splits if_splits
           dest: windows_lines_described)

lemma process_lookup_described:
  "process_lookup port e tr = (Inr d, tr') \<Longrightarrow> d \<noteq> []"
  unfolding process_lookup_def
  by (auto split: if_splits prod.splits sum.splits option.splits
           dest: try_lsof_described try_netstat_described try_ss_described try_windows_described)

lemma get_process_using_port_described:
  "\<exists>d tr'. get_process_using_port port e tr = (Some d, tr') \<and> d \<noteq> []"
proof (cases "process_lookup port e tr")
  case (Pair r tr1)
  show ?thesis
  proof (cases r)
    case (Inl err)
    with Pair show ?thesis by (simp add: get_process_using_port_def)
  next
    case (Inr d)
    with Pair process_lookup_described [of port e tr d tr1] show ?thesis
      by (simp add: get_process_using_port_def)
  qed
qed

lemma collect_busy_result:
  assumes "collect_busy base host e offsets busy0 tr = (Inr busy, tr')"
  shows "\<exists>new. busy = busy0 @ new \<and>
           map info_port new = filter (port_busy e host) (map ((+) base) offsets) \<and>
           (\<forall>pi\<in>set new. \<not> info_available pi \<and> (\<exists>d. process_info pi = Some d \<and> d \<noteq> []))"
  using assms
proof (induction offsets arbitrary: busy0 tr)
  case Nil
  then show ?case by simp
next
  case (Cons i rest)
  show ?case
  proof (cases rule: probe_cases [of e host "base + i"])
    case free
    with Cons.prems have "collect_busy base host e rest busy0 (tr @ [Bind host (base + i)]) = (Inr busy, tr')"
      by (simp add: is_port_available_probe Let_def)
    from Cons.IH [OF this] free show ?thesis by (simp add: port_busy_def)
  next
    case busy
    obtain d tr2 where d: "get_process_using_port (base + i) e (tr @ [Bind host (base + i)]) = (Some d, tr2)"
      "d \<noteq> []"
      using get_process_using_port_described by blast
    let ?pi = "\<lparr>info_port = base + i, info_available = False, process_info = Some d\<rparr>"
    from Cons.prems busy d have "collect_busy base host e rest (busy0 @ [?pi]) tr2 = (Inr busy, tr')"
      by (simp add: is_port_available_probe Let_def)
    from Cons.IH [OF this] obtain new where new: "busy = (busy0 @ [?pi]) @ new"
      "map info_port new = filter (port_busy e host) (map ((+) base) rest)"
      "\<forall>pi\<in>set new. \<not> info_available pi \<and> (\<exists>d. process_info pi = Some d \<and> d \<noteq> [])"
      by blast
    show ?thesis
    proof (intro exI [of _ "?pi # new"] conjI)
      show "busy = busy0 @ ?pi # new" using new(1) by simp
      show "map info_port (?pi # new) = filter (port_busy e host) (map ((+) base) (i # rest))"
        using new(2) busy by (simp add: port_busy_def)
      show "\<forall>pi\<in>set (?pi # new). \<not> info_available pi \<and> (\<exists>d. process_info pi = Some d \<and> d \<noteq> [])"
        using new(3) d(2) by simp
    qed
  next
    case (raised msg)
    with Cons.prems show ?thesis by (simp add: is_port_available_probe Let_def)
  qed
qed

lemma collect_busy_total:
  assumes "\<forall>i\<in>set offsets. \<exists>b. probe e host (base + i) = Inr b"
  shows "\<exists>busy tr'. collect_busy base host e offsets busy0 tr = (Inr busy, tr')"
  using assms
proof (induction offsets arbitrary: busy0 tr)
  case Nil
  then show ?case by simp
next
  case (Cons i rest)
  then obtain b where b: "probe e host (base + i) = Inr b" by auto
  from Cons.prems have rest: "\<forall>i\<in>set rest. \<exists>b. probe e host (base + i) = Inr b" by simp
  show ?case
  proof (cases b)
    case True
    with b Cons.IH [OF rest] show ?thesis by (simp add: is_port_available_probe Let_def)
  next
    case False
    obtain d tr2 where "get_process_using_port (base + i) e (tr @ [Bind host (base + i)]) = (d, tr2)"
      by (cases "get_process_using_port (base + i) e (tr @ [Bind host (base + i)])")
    with b False Cons.IH [OF rest] show ?thesis by (simp add: is_port_available_probe Let_def)
  qed
qed

lemma split_from_at_sep:
  "sep \<noteq> [] \<Longrightarrow> split_from sep piece (sep @ rest) = piece # split_from sep [] rest"
  by (cases sep) simp_all

lemma sublist_snoc_differ:
  assumes "sublist (xs @ [a]) (ys @ [b])" and "a \<noteq> b"
  shows "sublist (xs @ [a]) ys"
proof -
  from assms(1) obtain ps ss where eq: "ys @ [b] = ps @ (xs @ [a]) @ ss"
    by (auto simp: sublist_def)
  show ?thesis
  proof (cases ss rule: rev_cases)
    case Nil
    with eq have "ys @ [b] = (ps @ xs) @ [a]" by simp
    then have "b = a" by (simp only: append1_eq_conv)
    with assms(2) show ?thesis by simp
  next
    case (snoc ss' c)
    with eq have "ys @ [b] = (ps @ (xs @ [a]) @ ss') @ [c]" by simp
    then have "ys = ps @ (xs @ [a]) @ ss'" by (simp only: append1_eq_conv)
    then show ?thesis unfolding sublist_def by blast
  qed
qed

lemma single_port_split:
  fixes d :: string
  shows "\<exists>rest more. str_split (str base @ '' already in use ('' @ d @ '')'') (str base @ '' '') =
           [] # (''already in use ('' @ rest) # more \<and>
           (\<not> sublist (str base @ '' '') d \<longrightarrow> rest = d @ '')'' \<and> more = [])"
proof -
  obtain c cs where c: "str base = c # cs" "c \<in> set ''-0123456789''"
    using str_hd by blast
  let ?sep = "c # (cs @ '' '')"
  let ?phrase = "''already in use (''"
  have sep: "str base @ '' '' = ?sep" using c(1) by simp
  have whole: "str base @ '' already in use ('' @ d @ '')'' = ?sep @ (?phrase @ (d @ '')''))"
    using c(1) by simp
  have notin: "c \<notin> set ?phrase" using c(2) by (rule sign_digit_not_in_phrase)
  have s1: "str_split (str base @ '' already in use ('' @ d @ '')'') (str base @ '' '') =
        [] # split_from ?sep ?phrase (d @ '')'')"
    unfolding str_split_def sep whole
    using split_from_at_sep [of ?sep "[]" "?phrase @ (d @ '')'')"]
          split_from_skip [OF notin, of "cs @ '' ''" "[]" "d @ '')''"]
    by simp
  obtain x xs where x: "split_from ?sep ?phrase (d @ '')'') = x # xs" "prefix ?phrase x"
    using split_from_hd by blast
  then obtain rest where rest: "x = ?phrase @ rest" by (auto simp: prefix_def)
  have "rest = d @ '')'' \<and> xs = []" if "\<not> sublist (str base @ '' '') d"
  proof -
    have "\<not> sublist ((c # cs) @ '' '') (d @ '')'')"
    proof
      assume "sublist ((c # cs) @ '' '') (d @ '')'')"
      then have "sublist ((c # cs) @ '' '') d" by (rule sublist_snoc_differ) simp
      with that c(1) show False by simp
    qed
    then have "\<not> sublist ?sep (d @ '')'')" by simp
    from split_from_none [OF this, of ?phrase] x(1) rest show ?thesis by simp
  qed
  with s1 x(1) rest show ?thesis by auto
qed

lemma busy_message_plural:
  "count \<noteq> 1 \<Longrightarrow> busy_message base count busy =
     Inr (''Ports '' @ str base @ ''-'' @ str (base + count - 1) @ '': '' @
          str_join '', '' (map busy_port_str busy))"
  by (simp add: busy_message_def Let_def comp_def port_description_id)

lemma busy_message_single:
  assumes "busy = pi # others" "info_port pi = base" "process_info pi = Some d" "d \<noteq> []"
  shows "\<exists>rest. busy_message base 1 busy = Inr (''Port '' @ str base @ '': already in use ('' @ rest) \<and>
           (\<not> sublist (str base @ '' '') d \<longrightarrow> rest = d @ '')'')"
proof -
  from assms have desc: "busy_port_str pi = str base @ '' already in use ('' @ d @ '')''"
    by (simp add: busy_port_str_def truthy_def)
  from single_port_split [of base d] obtain rest more where
    sp: "str_split (str base @ '' already in use ('' @ d @ '')'') (str base @ '' '') =
           [] # (''already in use ('' @ rest) # more"
    and ex: "\<not> sublist (str base @ '' '') d \<longrightarrow> rest = d @ '')'' \<and> more = []"
    by blast
  have "busy_message base 1 busy = Inr (''Port '' @ str base @ '': already in use ('' @ rest)"
    using assms(1) desc sp by (simp add: busy_message_def Let_def)
  with ex show ?thesis by blast
qed

lemma sublist_prepend: "sublist x y \<Longrightarrow> sublist x (p @ y)"
proof -
  assume "sublist x y"
  then obtain ps ss where "y = ps @ x @ ss" by (auto simp: sublist_def)
  then have "p @ y = (p @ ps) @ x @ ss" by simp
  then show ?thesis unfolding sublist_def by blast
qed

lemma single_window_head:
  assumes "busy = pi # others" and "map info_port busy = filter P [base..base + 1 - 1]"
  shows "info_port pi = base"
proof -
  from assms(1) have "info_port pi \<in> set (map info_port busy)" by simp
  then have "info_port pi \<in> set (filter P [base..base + 1 - 1])" by (simp only: assms(2))
  then have "info_port pi \<in> {base..base}" by (simp only: set_filter set_upto) simp
  then show ?thesis by simp
qed

lemma busy_message_returns:
  assumes "1 \<le> count" "busy \<noteq> []"
    and "map info_port busy = filter (port_busy e host) [base..base + count - 1]"
    and "\<forall>pi\<in>set busy. \<exists>d. process_info pi = Some d \<and> d \<noteq> []"
  shows "\<exists>msg. busy_message base count busy = Inr msg"
proof (cases "count = 1")
  case True
  from assms(2) obtain pi others where busy: "busy = pi # others" by (cases busy) auto
  from assms(3) True have "map info_port busy = filter (port_busy e host) [base..base + 1 - 1]"
    by simp
  with busy have "info_port pi = base" by (rule single_window_head)
  moreover from assms(4) busy obtain d where "process_info pi = Some d" "d \<noteq> []" by auto
  ultimately show ?thesis using busy_message_single [OF busy] True by blast
next
  case False
  then show ?thesis by (simp add: busy_message_plural)
qed

lemma check_block_returned:
  assumes "1 \<le> count" "base + count - 1 \<le> 65535"
    and "check_sequential_port_block base count host e tr = (Inr r, tr')"
  shows "map info_port (busy_ports r) = filter (port_busy e host) [base..base + count - 1]"
    and "\<forall>pi\<in>set (busy_ports r). \<not> info_available pi \<and> (\<exists>d. process_info pi = Some d \<and> d \<noteq> [])"
    and "available r \<longleftrightarrow> busy_ports r = []"
    and "requested_range r = (base, base + count - 1)"
    and "error_message r =
           (if busy_ports r = [] then None
            else (case busy_message base count (busy_ports r) of Inr msg \<Rightarrow> Some msg | Inl err \<Rightarrow> None))"
proof -
  obtain res tr1 where cb: "collect_busy base host e (py_range count) [] tr = (res, tr1)"
    by (cases "collect_busy base host e (py_range count) [] tr")
  with assms obtain busy where busy: "res = Inr busy"
    by (cases res) (auto simp: check_sequential_port_block_def Let_def)
  from collect_busy_result [OF cb [unfolded busy]]
  have found: "map info_port busy = filter (port_busy e host) [base..base + count - 1]"
    and infos: "\<forall>pi\<in>set busy. \<not> info_available pi \<and> (\<exists>d. process_info pi = Some d \<and> d \<noteq> [])"
    by (auto simp: map_py_range)
  have r: "busy_ports r = busy \<and> (available r \<longleftrightarrow> busy = []) \<and>
           requested_range r = (base, base + count - 1) \<and>
           error_message r = (if busy = [] then None
             else (case busy_message base count busy of Inr msg \<Rightarrow> Some msg | Inl err \<Rightarrow> None))"
    using assms cb busy
    by (auto simp: check_sequential_port_block_def Let_def split: sum.splits if_splits)
  from r found show "map info_port (busy_ports r) = filter (port_busy e host) [base..base + count - 1]"
    by simp
  from r infos show "\<forall>pi\<in>set (busy_ports r). \<not> info_available pi \<and>
      (\<exists>d. process_info pi = Some d \<and> d \<noteq> [])" by simp
  from r show "available r \<longleftrightarrow> busy_ports r = []" by simp
  from r show "requested_range r = (base, base + count - 1)" by simp
  from r show "error_message r =
           (if busy_ports r = [] then None
            else (case busy_message base count (busy_ports r) of Inr msg \<Rightarrow> Some msg | Inl err \<Rightarrow> None))"
    by simp
qed

lemma check_block_total:
  assumes "1 \<le> count" "0 \<le> base" "base + count - 1 \<le> 65535"
  shows "\<exists>r tr'. check_sequential_port_block base count host e tr = (Inr r, tr')"
proof -
  have "\<forall>i\<in>set (py_range count). \<exists>b. probe e host (base + i) = Inr b"
  proof
    fix i assume "i \<in> set (py_range count)"
    then have "0 \<le> base + i" "base + i \<le> 65535" using assms by (auto simp: set_py_range)
    then show "\<exists>b. probe e host (base + i) = Inr b" by (simp add: probe_in_range)
  qed
  from collect_busy_total [OF this]
  obtain busy tr1 where cb: "collect_busy base host e (py_range count) [] tr = (Inr busy, tr1)"
    by blast
  show ?thesis
  proof (cases "busy = []")
    case True
    with assms cb show ?thesis by (simp add: check_sequential_port_block_def Let_def)
  next
    case False
    from collect_busy_result [OF cb]
    have "map info_port busy = filter (port_busy e host) [base..base + count - 1]"
      and "\<forall>pi\<in>set busy. \<exists>d. process_info pi = Some d \<and> d \<noteq> []"
      by (auto simp: map_py_range)
    from busy_message_returns [OF assms(1) False this]
    obtain msg where "busy_message base count busy = Inr msg" by blast
    with assms cb False show ?thesis by (simp add: check_sequential_port_block_def Let_def)
  qed
qed

text \<open>
  Claim C10. For \<open>count \<ge> 1\<close> and \<open>base+count-1 \<le> 65535\<close>: the check returns a result
  when \<open>base \<ge> 0\<close>; in every result it returns, the ports of \<open>busy_ports\<close> are
  strictly increasing, each lies in \<open>[base, base+count-1]\<close>, each entry has
  \<open>available = False\<close> and a process description that is a non-empty string, and
  \<open>available\<close> is true exactly when \<open>busy_ports\<close> is empty. The process attribution
  returns a non-empty string for every port, whatever the tools do.
\<close>

theorem C10_busy_ports:
  assumes "1 \<le> count" and "base + count - 1 \<le> 65535"
  shows "(0 \<le> base \<longrightarrow> (\<exists>r tr'. check_sequential_port_block base count host e tr = (Inr r, tr'))) \<and>
         (\<forall>r tr'. check_sequential_port_block base count host e tr = (Inr r, tr') \<longrightarrow>
            sorted_wrt (<) (map info_port (busy_ports r)) \<and>
            (\<forall>pi\<in>set (busy_ports r). base \<le> info_port pi \<and> info_port pi \<le> base + count - 1 \<and>
                 \<not> info_available pi \<and> (\<exists>d. process_info pi = Some d \<and> d \<noteq> [])) \<and>
            (available r \<longleftrightarrow> busy_ports r = [])) \<and>
         (\<forall>port tr0. \<exists>d tr1. get_process_using_port port e tr0 = (Some d, tr1) \<and> d \<noteq> [])"
proof (intro conjI allI impI)
  assume "0 \<le> base"
  with assms show "\<exists>r tr'. check_sequential_port_block base count host e tr = (Inr r, tr')"
    by (intro check_block_total) simp_all
next
  fix r tr'
  assume ret: "check_sequential_port_block base count host e tr = (Inr r, tr')"
  note facts = check_block_returned [OF assms ret]
  show "sorted_wrt (<) (map info_port (busy_ports r))"
    unfolding facts(1) by (intro sorted_wrt_filter sorted_wrt_upto)
  show "\<forall>pi\<in>set (busy_ports r). base \<le> info_port pi \<and> info_port pi \<le> base + count - 1 \<and>
                 \<not> info_available pi \<and> (\<exists>d. process_info pi = Some d \<and> d \<noteq> [])"
  proof
    fix pi assume pi: "pi \<in> set (busy_ports r)"
    then have "info_port pi \<in> set (map info_port (busy_ports r))" by simp
    then have "info_port pi \<in> {base..base + count - 1}" unfolding facts(1) by simp
    with facts(2) pi show "base \<le> info_port pi \<and> info_port pi \<le> base + count - 1 \<and>
                 \<not> info_available pi \<and> (\<exists>d. process_info pi = Some d \<and> d \<noteq> [])" by simp
  qed
  show "available r \<longleftrightarrow> busy_ports r = []" by (rule facts(3))
next
  fix port tr0
  show "\<exists>d tr1. get_process_using_port port e tr0 = (Some d, tr1) \<and> d \<noteq> []"
    by (rule get_process_using_port_described)
qed

text \<open>
  Claim C2, as the code has it. For a range of \<open>count \<ge> 1\<close> ports within 0 to 65535
  that holds a busy port, the check returns \<open>available = False\<close> and a message, and
  \<open>busy_ports\<close> lists exactly the busy ports of the range, each with a non-empty
  process description. For \<open>count > 1\<close> the message is \<open>Ports <base>-<end>: \<close> followed
  by the descriptions \<open><p> already in use (<process>)\<close> of the busy ports, joined by
  commas, so each of them occurs in it. For \<open>count = 1\<close> the message starts with
  \<open>Port <base>: already in use (\<close>, with a colon between the port and the phrase, and it
  is \<open>Port <base>: already in use (<process>)\<close> when the description does not contain
  the port number followed by a space.
\<close>

theorem C2_error_message:
  assumes "1 \<le> count" "0 \<le> base" "base + count - 1 \<le> 65535"
    and "\<exists>p\<in>{base..base + count - 1}. port_busy e host p"
  shows "\<exists>r tr' msg. check_sequential_port_block base count host e tr = (Inr r, tr') \<and>
           \<not> available r \<and> error_message r = Some msg \<and>
           map info_port (busy_ports r) = filter (port_busy e host) [base..base + count - 1] \<and>
           (\<forall>pi\<in>set (busy_ports r). \<exists>d. process_info pi = Some d \<and> d \<noteq> []) \<and>
           (1 < count \<longrightarrow>
              msg = ''Ports '' @ str base @ ''-'' @ str (base + count - 1) @ '': '' @
                    str_join '', '' (map busy_port_str (busy_ports r)) \<and>
              (\<forall>pi\<in>set (busy_ports r).
                 sublist (str (info_port pi) @ '' already in use ('' @ the (process_info pi) @ '')'') msg)) \<and>
           (count = 1 \<longrightarrow>
              (\<exists>rest. msg = ''Port '' @ str base @ '': already in use ('' @ rest) \<and>
              (\<forall>d. process_info (hd (busy_ports r)) = Some d \<and> \<not> sublist (str base @ '' '') d \<longrightarrow>
                   msg = ''Port '' @ str base @ '': already in use ('' @ d @ '')''))"
proof -
  from check_block_total [OF assms(1-3)]
  obtain r tr' where ret: "check_sequential_port_block base count host e tr = (Inr r, tr')"
    by blast
  note facts = check_block_returned [OF assms(1,3) ret]
  from assms(4) have "filter (port_busy e host) [base..base + count - 1] \<noteq> []"
    by (simp add: filter_empty_conv)
  with facts(1) have nonempty: "busy_ports r \<noteq> []" by auto
  from facts(2) have infos: "\<forall>pi\<in>set (busy_ports r). \<exists>d. process_info pi = Some d \<and> d \<noteq> []"
    by blast
  from busy_message_returns [OF assms(1) nonempty facts(1) infos]
  obtain msg where msg: "busy_message base count (busy_ports r) = Inr msg" by blast
  with facts(5) nonempty have em: "error_message r = Some msg" by simp
  have plural: "msg = ''Ports '' @ str base @ ''-'' @ str (base + count - 1) @ '': '' @
                    str_join '', '' (map busy_port_str (busy_ports r)) \<and>
              (\<forall>pi\<in>set (busy_ports r).
                 sublist (str (info_port pi) @ '' already in use ('' @ the (process_info pi) @ '')'') msg)"
    if "1 < count"
  proof
    from that msg show eq: "msg = ''Ports '' @ str base @ ''-'' @ str (base + count - 1) @ '': '' @
                    str_join '', '' (map busy_port_str (busy_ports r))"
      by (simp add: busy_message_plural)
    show "\<forall>pi\<in>set (busy_ports r).
                 sublist (str (info_port pi) @ '' already in use ('' @ the (process_info pi) @ '')'') msg"
    proof
      fix pi assume pi: "pi \<in> set (busy_ports r)"
      with infos obtain d where d: "process_info pi = Some d" "d \<noteq> []" by blast
      then have "busy_port_str pi = str (info_port pi) @ '' already in use ('' @ d @ '')''"
        by (simp add: busy_port_str_def truthy_def)
      moreover from pi have "busy_port_str pi \<in> set (map busy_port_str (busy_ports r))" by simp
      then have "sublist (busy_port_str pi) (str_join '', '' (map busy_port_str (busy_ports r)))"
        by (rule sublist_str_join)
      then have "sublist (busy_port_str pi)
          ((''Ports '' @ str base @ ''-'' @ str (base + count - 1) @ '': '') @
           str_join '', '' (map busy_port_str (busy_ports r)))"
        by (rule sublist_prepend)
      then have "sublist (busy_port_str pi) msg"
        unfolding eq by simp
      ultimately show "sublist (str (info_port pi) @ '' already in use ('' @ the (process_info pi) @ '')'') msg"
        using d(1) by simp
    qed
  qed
  have single: "(\<exists>rest. msg = ''Port '' @ str base @ '': already in use ('' @ rest) \<and>
              (\<forall>d. process_info (hd (busy_ports r)) = Some d \<and> \<not> sublist (str base @ '' '') d \<longrightarrow>
                   msg = ''Port '' @ str base @ '': already in use ('' @ d @ '')'')"
    if "count = 1"
  proof -
    from nonempty obtain pi others where busy: "busy_ports r = pi # others"
      by (cases "busy_ports r") auto
    from facts(1) that
    have "map info_port (busy_ports r) = filter (port_busy e host) [base..base + 1 - 1]"
      by simp
    with busy have port: "info_port pi = base" by (rule single_window_head)
    from infos busy obtain d where d: "process_info pi = Some d" "d \<noteq> []" by auto
    from busy_message_single [OF busy port d] msg that
    obtain rest where rest: "msg = ''Port '' @ str base @ '': already in use ('' @ rest"
      "\<not> sublist (str base @ '' '') d \<longrightarrow> rest = d @ '')''" by auto
    with busy d show ?thesis by auto
  qed
  from ret facts(3) nonempty em facts(1) infos plural single show ?thesis by blast
qed

section \<open>The block check and the search on a concrete host\<close>

lemmas decimal_numeral = decimal.simps [of "numeral k"] for k

lemmas search_ports_numeral = search_ports.simps(2) [of "pred_numeral k", folded numeral_eq_Suc] for k

lemma py_range_small: "py_range 2 = [0, 1]" "py_range 3 = [0, 1, 2]"
  by (simp_all add: py_range_def upt_conv_Cons)

lemma str_8091: "str 8091 = ''8091''"
  by (simp add: str_def decimal_numeral digit_char_def)

lemma demo_probe:
  "probe demo_host host port =
     (if port < 0 \<or> 65535 < port then Inl (OverflowError ''bind(): port must be 0-65535.'')
      else Inr (port \<noteq> 8091))"
  by (simp add: probe_def is_port_available_def socket_bind_def demo_host_def)

lemma demo_busy: "port_busy demo_host ''0.0.0.0'' 8091"
  by (simp add: port_busy_def demo_probe)

lemma demo_unknown:
  "get_process_using_port port demo_host tr =
     (Some ''unknown process'',
      tr @ [Run [''lsof'', ''-i'', '':'' @ str port, ''-P'', ''-n''],
            Run [''netstat'', ''-tulpn''], Run [''ss'', ''-tulpn'']])"
  by (simp add: get_process_using_port_def process_lookup_def demo_host_def try_lsof_def
      try_netstat_def try_ss_def subprocess_run_def gives_up_def)

lemma demo_single_check:
  "fst (check_sequential_port_block 8091 1 ''0.0.0.0'' demo_host []) =
   Inr \<lparr>available = False, requested_range = (8091, 8091),
        busy_ports = [\<lparr>info_port = 8091, info_available = False,
                        process_info = Some ''unknown process''\<rparr>],
        error_message = Some ''Port 8091: already in use (unknown process)''\<rparr>"
  by (simp add: check_sequential_port_block_def Let_def py_range_def is_port_available_probe
        demo_probe demo_unknown busy_message_def busy_port_str_def truthy_def str_8091
        str_split_def)

lemma demo_block_check:
  "fst (check_sequential_port_block 8090 3 ''0.0.0.0'' demo_host []) =
   Inr \<lparr>available = False, requested_range = (8090, 8092),
        busy_ports = [\<lparr>info_port = 8091, info_available = False,
                        process_info = Some ''unknown process''\<rparr>],
        error_message = Some ''Ports 8090-8092: 8091 already in use (unknown process)''\<rparr>"
  by (simp add: check_sequential_port_block_def Let_def py_range_small is_port_available_probe
        demo_probe demo_unknown busy_message_plural busy_port_str_def truthy_def
        str_def decimal_numeral digit_char_def)

lemma demo_find:
  "find_sequential_ports 8090 3 ''0.0.0.0'' demo_host [] =
     (Inr [8092, 8093, 8094],
      [Bind ''0.0.0.0'' 8090, Bind ''0.0.0.0'' 8091, Bind ''0.0.0.0'' 8091,
       Bind ''0.0.0.0'' 8092, Bind ''0.0.0.0'' 8093, Bind ''0.0.0.0'' 8094])"
  by (simp add: find_sequential_ports_def max_attempts_def search_ports_numeral py_range_small
        is_port_available_probe demo_probe Let_def)

text \<open>
  Claim C2 as stated fails for a single port: port 8091 is busy, the message is
  \<open>Port 8091: already in use (unknown process)\<close>, and the text
  \<open>8091 already in use\<close> does not occur in it.
\<close>

theorem C2_counterexample:
  "port_busy demo_host ''0.0.0.0'' 8091 \<and>
   fst (check_sequential_port_block 8091 1 ''0.0.0.0'' demo_host []) =
     Inr \<lparr>available = False, requested_range = (8091, 8091),
          busy_ports = [\<lparr>info_port = 8091, info_available = False,
                          process_info = Some ''unknown process''\<rparr>],
          error_message = Some ''Port 8091: already in use (unknown process)''\<rparr> \<and>
   \<not> sublist ''8091 already in use'' ''Port 8091: already in use (unknown process)''"
proof (intro conjI)
  show "port_busy demo_host ''0.0.0.0'' 8091" by (rule demo_busy)
  show "fst (check_sequential_port_block 8091 1 ''0.0.0.0'' demo_host []) =
     Inr \<lparr>available = False, requested_range = (8091, 8091),
          busy_ports = [\<lparr>info_port = 8091, info_available = False,
                          process_info = Some ''unknown process''\<rparr>],
          error_message = Some ''Port 8091: already in use (unknown process)''\<rparr>"
    by (rule demo_single_check)
  show "\<not> sublist ''8091 already in use'' ''Port 8091: already in use (unknown process)''"
    by (simp add: sublist_code)
qed

text \<open>Claim C2, witness: the block 8090 to 8092 with port 8091 busy.\<close>

theorem C2_error_message_witness:
  "port_busy demo_host ''0.0.0.0'' 8091 \<and>
   (\<exists>r tr'. check_sequential_port_block 8090 3 ''0.0.0.0'' demo_host [] = (Inr r, tr') \<and>
      \<not> available r \<and>
      error_message r = Some (''Ports 8090-8092: '' @ str_join '', '' (map busy_port_str (busy_ports r))))"
proof -
  have busy: "\<exists>p\<in>{8090..8090 + 3 - 1}. port_busy demo_host ''0.0.0.0'' p"
    using demo_busy by (intro bexI [of _ 8091]) simp_all
  have "(1::int) \<le> 3" "(0::int) \<le> 8090" "(8090::int) + 3 - 1 \<le> 65535" by simp_all
  from C2_error_message [OF this busy, of "[]"]
  obtain r tr' msg where "check_sequential_port_block 8090 3 ''0.0.0.0'' demo_host [] = (Inr r, tr')"
    "\<not> available r" "error_message r = Some msg"
    "msg = ''Ports '' @ str 8090 @ ''-'' @ str (8090 + 3 - 1) @ '': '' @
                    str_join '', '' (map busy_port_str (busy_ports r))"
    by auto
  then show ?thesis using demo_busy
    by (auto simp: str_def decimal_numeral digit_char_def)
qed

text \<open>Claim C3, witness: from base 8090 with port 8091 busy, three ports are found
  at 8092.\<close>

theorem C3_find_sequential_ports_witness:
  "find_sequential_ports 8090 3 ''0.0.0.0'' demo_host [] =
     (Inr [8092, 8093, 8094],
      [Bind ''0.0.0.0'' 8090, Bind ''0.0.0.0'' 8091, Bind ''0.0.0.0'' 8091,
       Bind ''0.0.0.0'' 8092, Bind ''0.0.0.0'' 8093, Bind ''0.0.0.0'' 8094]) \<and>
   port_busy demo_host ''0.0.0.0'' 8091 \<and>
   (\<exists>p. [8092, 8093, 8094] = [p..p + 3 - 1] \<and> 8090 < p \<and>
        (\<forall>q\<in>{p..p + 3 - 1}. port_free demo_host ''0.0.0.0'' q))"
proof -
  have busy: "\<exists>q\<in>{8090..8090 + 3 - 1}. port_busy demo_host ''0.0.0.0'' q"
    using demo_busy by (intro bexI [of _ 8091]) simp_all
  from C3_find_sequential_ports [of 8090 3 "''0.0.0.0''" demo_host "[]"] demo_find busy
  have "\<exists>p. [8092, 8093, 8094] = [p..p + 3 - 1] \<and> 8090 < p \<and>
        (\<forall>q\<in>{p..p + 3 - 1}. port_free demo_host ''0.0.0.0'' q)"
    by blast
  with demo_find demo_busy show ?thesis by blast
qed

text \<open>
  Claim C5 fails on the code: the probe of port 65536 on a resolving host raises
  \<open>OverflowError\<close>, which \<open>except (socket.error, OSError)\<close> does not catch; the
  search for two ports from 65535 reaches that probe and raises too.
\<close>

theorem C5_probe_raises_on_invalid_port:
  "is_port_available 65536 ''0.0.0.0'' demo_host [] =
     (Inl (OverflowError ''bind(): port must be 0-65535.''), [Bind ''0.0.0.0'' 65536]) \<and>
   fst (find_sequential_ports 65535 2 ''0.0.0.0'' demo_host []) =
     Inl (OverflowError ''bind(): port must be 0-65535.'')"
  by (simp add: find_sequential_ports_def max_attempts_def search_ports_numeral py_range_small
        is_port_available_probe demo_probe Let_def)

text \<open>Claim C6, witness: \<open>check(9000, 0)\<close> and \<open>check(65534, 4)\<close>.\<close>

theorem C6_input_validation_witness:
  "check_sequential_port_block 9000 0 ''0.0.0.0'' demo_host [] =
     (Inr \<lparr>available = False, requested_range = (9000, 8999), busy_ports = [],
           error_message = Some ''Count must be at least 1''\<rparr>, []) \<and>
   check_sequential_port_block 65534 4 ''0.0.0.0'' demo_host [] =
     (Inr \<lparr>available = False, requested_range = (65534, 65537), busy_ports = [],
           error_message = Some ''Port range 65534-65537 exceeds maximum port number 65535''\<rparr>, [])"
  using C6_input_validation [of 0 9000 "''0.0.0.0''" demo_host "[]"]
        C6_input_validation [of 4 65534 "''0.0.0.0''" demo_host "[]"]
  by (simp add: str_def decimal_numeral digit_char_def)

text \<open>Claim C10, witness: the block 8090 to 8092 with port 8091 busy.\<close>

theorem C10_busy_ports_witness:
  "fst (check_sequential_port_block 8090 3 ''0.0.0.0'' demo_host []) =
     Inr \<lparr>available = False, requested_range = (8090, 8092),
          busy_ports = [\<lparr>info_port = 8091, info_available = False,
                          process_info = Some ''unknown process''\<rparr>],
          error_message = Some ''Ports 8090-8092: 8091 already in use (unknown process)''\<rparr> \<and>
   (\<exists>r tr'. check_sequential_port_block 8090 3 ''0.0.0.0'' demo_host [] = (Inr r, tr') \<and>
      sorted_wrt (<) (map info_port (busy_ports r)) \<and> (available r \<longleftrightarrow> busy_ports r = []))"
proof -
  have "(1::int) \<le> 3" "(8090::int) + 3 - 1 \<le> 65535" by simp_all
  note claim = C10_busy_ports [OF this, of "''0.0.0.0''" demo_host "[]"]
  from claim obtain r tr' where
    ret: "check_sequential_port_block 8090 3 ''0.0.0.0'' demo_host [] = (Inr r, tr')"
    by auto
  with claim have "sorted_wrt (<) (map info_port (busy_ports r)) \<and>
      (available r \<longleftrightarrow> busy_ports r = [])"
    by blast
  with ret demo_block_check show ?thesis by blast
qed


section \<open>Properties of the orchestrator\<close>

subsection \<open>Which events a call adds\<close>

lemma harmless_refl: "harmless tr tr"
  by (simp add: harmless_def)

lemma harmless_trans: "harmless a b \<Longrightarrow> harmless b c \<Longrightarrow> harmless a c"
  by (auto simp: harmless_def)

lemma harmless_event: "\<not> removes_or_creates ev \<Longrightarrow> harmless tr (tr @ [ev])"
  by (simp add: harmless_def)

lemma harmless_bind: "harmless tr (tr @ [Bind host port])"
  by (rule harmless_event) (simp add: removes_or_creates_def)

lemma trace_try_lsof:
  "snd (try_lsof port e tr) = tr @ [Run [''lsof'', ''-i'', '':'' @ str port, ''-P'', ''-n'']]"
  by (simp add: try_lsof_def subprocess_run_def Let_def split: sum.splits)

lemma trace_try_netstat:
  "snd (try_netstat port e tr) = tr @ [Run [''netstat'', ''-tulpn'']]"
  by (simp add: try_netstat_def subprocess_run_def split: sum.splits)

lemma trace_try_ss:
  "snd (try_ss port e tr) = tr @ [Run [''ss'', ''-tulpn'']]"
  by (simp add: try_ss_def subprocess_run_def split: sum.splits)

lemma trace_try_tasklist:
  "snd (try_tasklist pid e tr) = tr @ [Run [''tasklist'', ''/FI'', ''PID eq '' @ pid, ''/FO'', ''CSV'']]"
  by (simp add: try_tasklist_def subprocess_run_def Let_def split: sum.splits list.splits)

lemma harmless_try_lsof: "harmless tr (snd (try_lsof port e tr))"
  unfolding trace_try_lsof by (rule harmless_event) (simp add: removes_or_creates_def)

lemma harmless_try_netstat: "harmless tr (snd (try_netstat port e tr))"
  unfolding trace_try_netstat by (rule harmless_event) (simp add: removes_or_creates_def)

lemma harmless_try_ss: "harmless tr (snd (try_ss port e tr))"
  unfolding trace_try_ss by (rule harmless_event) (simp add: removes_or_creates_def)

lemma harmless_try_tasklist: "harmless tr (snd (try_tasklist pid e tr))"
  unfolding trace_try_tasklist by (rule harmless_event) (simp add: removes_or_creates_def)

lemma harmless_windows_lines: "harmless tr (snd (windows_lines port ls e tr))"
proof (induction ls)
  case Nil
  show ?case by (simp add: harmless_refl)
next
  case (Cons line rest)
  show ?case
  proof (cases "sublist ('':'' @ str port @ '' '') line \<and> sublist ''LISTENING'' line \<and>
                length (str_split_ws line) \<ge> 5")
    case True
    have "snd (windows_lines port (line # rest) e tr) = snd (try_tasklist (str_split_ws line ! 4) e tr)"
      using True by (simp add: Let_def split: prod.splits sum.splits option.splits)
    then show ?thesis by (simp only: harmless_try_tasklist)
  next
    case False
    then have "windows_lines port (line # rest) e tr = windows_lines port rest e tr"
      by (auto simp: Let_def)
    with Cons show ?thesis by simp
  qed
qed

lemma harmless_try_windows: "harmless tr (snd (try_windows port e tr))"
proof -
  have step: "harmless tr (tr @ [Run [''netstat'', ''-ano'']])"
    by (rule harmless_event) (simp add: removes_or_creates_def)
  show ?thesis
  proof (cases "subprocess e tr [''netstat'', ''-ano'']")
    case (Inl err)
    then have "snd (try_windows port e tr) = tr @ [Run [''netstat'', ''-ano'']]"
      by (simp add: try_windows_def subprocess_run_def)
    with step show ?thesis by simp
  next
    case (Inr result)
    show ?thesis
    proof (cases "returncode result = 0")
      case True
      with Inr have "snd (try_windows port e tr) =
          snd (windows_lines port (str_split (stdout result) newline) e (tr @ [Run [''netstat'', ''-ano'']]))"
        by (simp add: try_windows_def subprocess_run_def)
      with harmless_trans [OF step harmless_windows_lines] show ?thesis by simp
    next
      case False
      with Inr have "snd (try_windows port e tr) = tr @ [Run [''netstat'', ''-ano'']]"
        by (simp add: try_windows_def subprocess_run_def)
      with step show ?thesis by simp
    qed
  qed
qed

lemma harmless_process_lookup: "harmless tr (snd (process_lookup port e tr))"
proof -
  have l: "harmless tr (snd (try_lsof port e tr))" by (rule harmless_try_lsof)
  have n: "harmless (snd (try_lsof port e tr)) (snd (try_netstat port e (snd (try_lsof port e tr))))"
    by (rule harmless_try_netstat)
  have s: "harmless (snd (try_netstat port e (snd (try_lsof port e tr))))
             (snd (try_ss port e (snd (try_netstat port e (snd (try_lsof port e tr))))))"
    by (rule harmless_try_ss)
  note ln = harmless_trans [OF l n]
  note lns = harmless_trans [OF ln s]
  have w: "harmless tr (snd (try_windows port e tr))" by (rule harmless_try_windows)
  obtain r1 t1 where a: "try_lsof port e tr = (r1, t1)" by (cases "try_lsof port e tr")
  obtain r2 t2 where b: "try_netstat port e t1 = (r2, t2)" by (cases "try_netstat port e t1")
  obtain r3 t3 where c: "try_ss port e t2 = (r3, t3)" by (cases "try_ss port e t2")
  obtain r4 t4 where d: "try_windows port e tr = (r4, t4)" by (cases "try_windows port e tr")
  from l ln lns w a b c d have h: "harmless tr t1" "harmless tr t2" "harmless tr t3" "harmless tr t4"
    by simp_all
  show ?thesis
    unfolding process_lookup_def using h a b c d harmless_refl [of tr]
    by (simp split: sum.splits option.splits)
qed

lemma harmless_get_process_using_port: "harmless tr (snd (get_process_using_port port e tr))"
proof -
  have "snd (get_process_using_port port e tr) = snd (process_lookup port e tr)"
    by (simp add: get_process_using_port_def split: prod.splits sum.splits)
  then show ?thesis by (simp only: harmless_process_lookup)
qed

lemma harmless_collect_busy: "harmless tr (snd (collect_busy base host e offsets busy tr))"
proof (induction offsets arbitrary: busy tr)
  case Nil
  show ?case by (simp add: harmless_refl)
next
  case (Cons i rest)
  let ?tr1 = "tr @ [Bind host (base + i)]"
  have b: "harmless tr ?tr1" by (rule harmless_bind)
  show ?case
  proof (cases rule: probe_cases [of e host "base + i"])
    case free
    then have "collect_busy base host e (i # rest) busy tr = collect_busy base host e rest busy ?tr1"
      by (simp add: is_port_available_probe Let_def)
    with harmless_trans [OF b Cons.IH] show ?thesis by simp
  next
    case busy
    obtain d tr2 where d: "get_process_using_port (base + i) e ?tr1 = (d, tr2)"
      by (cases "get_process_using_port (base + i) e ?tr1")
    with harmless_get_process_using_port [of ?tr1 "base + i" e] have "harmless ?tr1 tr2" by simp
    with b have h: "harmless tr tr2" by (rule harmless_trans)
    from busy d have "collect_busy base host e (i # rest) busy tr =
        collect_busy base host e rest
          (busy @ [\<lparr>info_port = base + i, info_available = False, process_info = d\<rparr>]) tr2"
      by (simp add: is_port_available_probe Let_def)
    with harmless_trans [OF h Cons.IH] show ?thesis by simp
  next
    case (raised msg)
    then have "snd (collect_busy base host e (i # rest) busy tr) = ?tr1"
      by (simp add: is_port_available_probe Let_def)
    with b show ?thesis by simp
  qed
qed

lemma harmless_check_block:
  "harmless tr (snd (check_sequential_port_block base count host e tr))"
proof -
  have "snd (check_sequential_port_block base count host e tr) = tr \<or>
        snd (check_sequential_port_block base count host e tr) =
          snd (collect_busy base host e (py_range count) [] tr)"
    by (simp add: check_sequential_port_block_def Let_def split: prod.splits sum.splits)
  with harmless_refl [of tr] harmless_collect_busy [of tr base host e "py_range count" "[]"]
  show ?thesis by auto
qed

lemma harmless_scan_window: "harmless tr (snd (scan_window c host e offsets acc tr))"
proof (induction offsets arbitrary: acc tr)
  case Nil
  show ?case by (simp add: harmless_refl)
next
  case (Cons i rest)
  let ?tr1 = "tr @ [Bind host (c + i)]"
  have b: "harmless tr ?tr1" by (rule harmless_bind)
  show ?case
  proof (cases rule: probe_cases [of e host "c + i"])
    case free
    then have "scan_window c host e (i # rest) acc tr = scan_window c host e rest (acc @ [c + i]) ?tr1"
      by (simp add: is_port_available_probe Let_def)
    with harmless_trans [OF b Cons.IH] show ?thesis by simp
  next
    case busy
    then have "snd (scan_window c host e (i # rest) acc tr) = ?tr1"
      by (simp add: is_port_available_probe Let_def)
    with b show ?thesis by simp
  next
    case (raised msg)
    then have "snd (scan_window c host e (i # rest) acc tr) = ?tr1"
      by (simp add: is_port_available_probe Let_def)
    with b show ?thesis by simp
  qed
qed

lemma harmless_search_ports: "harmless tr (snd (search_ports n cur count host e tr))"
proof (induction n arbitrary: cur tr)
  case 0
  show ?case by (simp add: harmless_refl)
next
  case (Suc n)
  obtain r tr1 where scan: "scan_window cur host e (py_range count) [] tr = (r, tr1)"
    by (cases "scan_window cur host e (py_range count) [] tr")
  with harmless_scan_window [of tr cur host e "py_range count" "[]"] have h: "harmless tr tr1"
    by simp
  have "snd (search_ports (Suc n) cur count host e tr) = tr1 \<or>
        snd (search_ports (Suc n) cur count host e tr) =
          snd (search_ports n (cur + 1) count host e tr1)"
    using scan by (simp add: Let_def split: sum.splits prod.splits)
  with h harmless_trans [OF h Suc.IH] show ?case by auto
qed

lemma harmless_find_sequential_ports:
  "harmless tr (snd (find_sequential_ports base count host e tr))"
proof -
  have "snd (find_sequential_ports base count host e tr) = tr \<or>
        snd (find_sequential_ports base count host e tr) =
          snd (search_ports max_attempts base count host e tr)"
    by (simp add: find_sequential_ports_def split: prod.splits sum.splits option.splits)
  with harmless_refl [of tr] harmless_search_ports [of tr max_attempts base count host e]
  show ?thesis by auto
qed

subsection \<open>Port allocation and re-entry\<close>

lemma sublist_phrase_busy_port_str: "sublist ''already in use'' (busy_port_str pi)"
proof (cases "truthy (process_info pi)")
  case True
  then have "busy_port_str pi = (str (info_port pi) @ '' '') @ ''already in use'' @
      ('' ('' @ the (process_info pi) @ '')'')"
    by (simp add: busy_port_str_def)
  then show ?thesis by (simp only: sublist_appendI)
next
  case False
  then have "busy_port_str pi = (str (info_port pi) @ '' '') @ ''already in use'' @ []"
    by (simp add: busy_port_str_def)
  then show ?thesis by (simp only: sublist_appendI)
qed

lemma busy_message_mentions:
  assumes "busy \<noteq> []" "count \<noteq> 1" "busy_message base count busy = Inr msg"
  shows "sublist ''already in use'' msg"
proof -
  from assms(1) obtain pi others where busy: "busy = pi # others" by (cases busy) auto
  then have "busy_port_str pi \<in> set (map busy_port_str busy)" by simp
  then have "sublist (busy_port_str pi) (str_join '', '' (map busy_port_str busy))"
    by (rule sublist_str_join)
  with sublist_phrase_busy_port_str
  have "sublist ''already in use'' (str_join '', '' (map busy_port_str busy))"
    by (rule sublist_order.order_trans)
  then have "sublist ''already in use''
      ((''Ports '' @ str base @ ''-'' @ str (base + count - 1) @ '': '') @
       str_join '', '' (map busy_port_str busy))"
    by (rule sublist_prepend)
  moreover from assms(2,3) have "msg = (''Ports '' @ str base @ ''-'' @ str (base + count - 1) @ '': '') @
       str_join '', '' (map busy_port_str busy)"
    by (simp add: busy_message_plural)
  ultimately show ?thesis by simp
qed

lemma harmless_allocate_except:
  assumes "allocate_except err e self tr = (r, self', tr')"
  shows "harmless tr tr'" and "containers self' = containers self" and "runtime self' = runtime self"
    and "sublist ''already in use'' (exn_str err) \<Longrightarrow> \<exists>m. r = Inl (RuntimeError m)"
proof -
  let ?f = "find_sequential_ports 8090 (int (length services)) ''0.0.0.0'' e tr"
  have "tr' = tr \<or> tr' = snd ?f"
    using assms by (auto simp: allocate_except_def split: if_splits prod.splits sum.splits)
  with harmless_refl [of tr] harmless_find_sequential_ports [of tr 8090 "int (length services)" "''0.0.0.0''" e]
  show "harmless tr tr'" by auto
  show "containers self' = containers self"
    using assms by (auto simp: allocate_except_def split: if_splits prod.splits sum.splits)
  show "runtime self' = runtime self"
    using assms by (auto simp: allocate_except_def split: if_splits prod.splits sum.splits)
  show "\<exists>m. r = Inl (RuntimeError m)" if "sublist ''already in use'' (exn_str err)"
    using assms that by (auto simp: allocate_except_def)
qed

lemma length_services: "int (length services) = 3"
  by (simp add: services_def)

lemma port_mapping_block:
  "port_mapping services [8090, 8091, 8092] =
     Inr [(''app'', 8090), (''postgres'', 8091), (''mongo'', 8092)]"
  by (simp add: port_mapping_def services_def dict_set_def)

lemma block_check:
  "\<exists>r tr1.
     check_sequential_port_block 8090 (int (length services)) ''0.0.0.0'' e tr = (Inr r, tr1) \<and>
     harmless tr tr1 \<and>
     (available r \<longleftrightarrow> (\<forall>p\<in>{8090..8092}. port_free e ''0.0.0.0'' p)) \<and>
     (\<not> available r \<longrightarrow> (\<exists>msg. error_message r = Some msg \<and> sublist ''already in use'' msg))"
proof -
  note len = length_services
  have c: "(1::int) \<le> 3" "(0::int) \<le> 8090" "(8090::int) + 3 - 1 \<le> 65535" by simp_all
  from check_block_total [OF c, of "''0.0.0.0''" e tr]
  obtain r tr1 where ret: "check_sequential_port_block 8090 3 ''0.0.0.0'' e tr = (Inr r, tr1)"
    by blast
  note facts = check_block_returned [OF c(1,3) ret]
  from harmless_check_block [of tr 8090 3 "''0.0.0.0''" e] ret have h: "harmless tr tr1" by simp
  have each: "port_free e ''0.0.0.0'' p \<or> port_busy e ''0.0.0.0'' p" if "p \<in> {8090..8092}" for p
  proof -
    from that have "0 \<le> p" "p \<le> 65535" by simp_all
    from probe_in_range [OF this, of e "''0.0.0.0''"] show ?thesis
      by (auto simp: port_free_def port_busy_def)
  qed
  have "busy_ports r = [] \<longleftrightarrow> (\<forall>p\<in>{8090..8092}. \<not> port_busy e ''0.0.0.0'' p)"
  proof -
    have "busy_ports r = [] \<longleftrightarrow> map info_port (busy_ports r) = []" by simp
    also have "\<dots> \<longleftrightarrow> filter (port_busy e ''0.0.0.0'') [8090..8092] = []"
      using facts(1) by simp
    also have "\<dots> \<longleftrightarrow> (\<forall>p\<in>{8090..8092}. \<not> port_busy e ''0.0.0.0'' p)"
      by (simp only: filter_empty_conv set_upto)
    finally show ?thesis .
  qed
  also have "\<dots> \<longleftrightarrow> (\<forall>p\<in>{8090..8092}. port_free e ''0.0.0.0'' p)"
    using each by (auto simp: port_free_def port_busy_def)
  finally have av: "available r \<longleftrightarrow> (\<forall>p\<in>{8090..8092}. port_free e ''0.0.0.0'' p)"
    using facts(3) by simp
  have msg: "\<exists>msg. error_message r = Some msg \<and> sublist ''already in use'' msg" if "\<not> available r"
  proof -
    from that facts(3) have ne: "busy_ports r \<noteq> []" by simp
    from facts(2) have "\<forall>pi\<in>set (busy_ports r). \<exists>d. process_info pi = Some d \<and> d \<noteq> []" by blast
    from busy_message_returns [OF c(1) ne facts(1) this]
    obtain m where m: "busy_message 8090 3 (busy_ports r) = Inr m" by blast
    with facts(5) ne have "error_message r = Some m" by simp
    moreover from busy_message_mentions [OF ne _ m] have "sublist ''already in use'' m" by simp
    ultimately show ?thesis by blast
  qed
  from ret h av msg show ?thesis by (simp add: len)
qed

lemma allocate_ports_frame:
  assumes "allocate_ports e self tr = (r, self', tr')"
  shows "harmless tr tr'" and "containers self' = containers self" and "runtime self' = runtime self"
    and "(\<exists>u. r = Inr u) \<longleftrightarrow> (\<forall>p\<in>{8090..8092}. port_free e ''0.0.0.0'' p)"
proof -
  obtain cr tr1 where
    ret: "check_sequential_port_block 8090 (int (length services)) ''0.0.0.0'' e tr = (Inr cr, tr1)"
    and h: "harmless tr tr1"
    and av: "available cr \<longleftrightarrow> (\<forall>p\<in>{8090..8092}. port_free e ''0.0.0.0'' p)"
    and msg: "\<not> available cr \<Longrightarrow> \<exists>msg. error_message cr = Some msg \<and> sublist ''already in use'' msg"
    using block_check [of e tr] by blast
  have all: "harmless tr tr' \<and> containers self' = containers self \<and>
      runtime self' = runtime self \<and>
      ((\<exists>u. r = Inr u) \<longleftrightarrow> (\<forall>p\<in>{8090..8092}. port_free e ''0.0.0.0'' p))"
  proof (cases "available cr")
    case True
    with assms ret have eq: "r = Inr ()"
      "self' = self\<lparr>ports := [(''app'', 8090), (''postgres'', 8091), (''mongo'', 8092)]\<rparr>"
      "tr' = tr1"
      by (simp_all add: allocate_ports_def Let_def length_services port_mapping_block)
    from eq h av True show ?thesis by simp
  next
    case False
    from msg [OF False] obtain m where m: "error_message cr = Some m" "sublist ''already in use'' m"
      by blast
    with assms ret False have ex: "allocate_except (RuntimeError m) e self tr1 = (r, self', tr')"
      by (simp add: allocate_ports_def Let_def length_services)
    note fr = harmless_allocate_except [OF ex]
    from h fr(1) have "harmless tr tr'" by (rule harmless_trans)
    moreover from fr(4) m(2) have "\<exists>m. r = Inl (RuntimeError m)" by simp
    then have "\<not> (\<exists>u. r = Inr u)" by auto
    ultimately show ?thesis using fr(2,3) av False by simp
  qed
  from all show "harmless tr tr'" by simp
  from all show "containers self' = containers self" by simp
  from all show "runtime self' = runtime self" by simp
  from all show "(\<exists>u. r = Inr u) \<longleftrightarrow> (\<forall>p\<in>{8090..8092}. port_free e ''0.0.0.0'' p)" by simp
qed

lemma check_containers_exist_healthy:
  assumes "runtime self = Some rt" "containers_healthy e rt"
  shows "fst (check_containers_exist e self tr) = True"
    and "harmless tr (snd (check_containers_exist e self tr))"
proof -
  let ?ps = "[rt_command rt, ''ps'', ''--format'', ''{{.Names}}'']"
  let ?pg = "[rt_command rt, ''exec'', ''test-postgres'', ''pg_isready'', ''-U'', ''user'', ''-d'', ''testdb'']"
  let ?mg = "[rt_command rt, ''exec'', ''test-mongo'', ''mongosh'', ''--eval'',
              ''db.adminCommand('' @ squote @ ''ping'' @ squote @ '')'']"
  let ?tr1 = "tr @ [Run ?ps]"
  let ?tr2 = "?tr1 @ [Run ?pg]"
  let ?tr3 = "?tr2 @ [Run ?mg]"
  from assms(2) obtain listing where listing: "subprocess e tr ?ps = Inr listing"
    "returncode listing = 0"
    "''test-postgres'' \<in> set (str_split (str_strip (stdout listing)) newline)"
    "''test-mongo'' \<in> set (str_split (str_strip (stdout listing)) newline)"
    unfolding containers_healthy_def by blast
  from assms(2) obtain pg where pg: "subprocess e ?tr1 ?pg = Inr pg" "returncode pg = 0"
    unfolding containers_healthy_def by blast
  from assms(2) obtain mg where mg: "subprocess e ?tr2 ?mg = Inr mg" "returncode mg = 0"
    unfolding containers_healthy_def by blast
  have p: "check_postgres_health e self ?tr1 = (True, ?tr2)"
    using assms(1) pg by (simp add: check_postgres_health_def health_check_def subprocess_run_def)
  have m: "check_mongo_health e self ?tr2 = (True, ?tr3)"
    using assms(1) mg by (simp add: check_mongo_health_def health_check_def subprocess_run_def)
  have eq: "check_containers_exist e self tr = (True, ?tr3)"
    using assms(1) listing p m
    by (simp add: check_containers_exist_def subprocess_run_def Let_def required_containers_def)
  then show "fst (check_containers_exist e self tr) = True" by simp
  have "harmless tr (tr @ [Run ?ps, Run ?pg, Run ?mg])"
    unfolding harmless_def by (intro exI [of _ "[Run ?ps, Run ?pg, Run ?mg]"])
      (simp add: removes_or_creates_def)
  with eq show "harmless tr (snd (check_containers_exist e self tr))" by simp
qed

text \<open>
  Re-entry under Podman, for every host. For an orchestrator whose runtime is Podman and
  whose required containers exist and pass their health checks, \<open>start_containers\<close>
  does not raise, leaves the runtime and the list of containers as they were, and runs no
  command that stops, removes or creates a container or the pod. The check of the port
  block 8090 to 8092 comes before the look at the containers: the call reaches the
  short-circuit of \<open>_start_podman_containers\<close> and returns \<open>True\<close> exactly when
  the three ports probe free, and returns \<open>False\<close> when one of them is taken.
\<close>

lemma start_containers_podman_reentry:
  assumes "runtime self = Some rt" "rt_name rt = ''podman''" "containers_healthy e rt"
  shows "\<exists>started self' tr'. start_containers e self tr = (Inr started, self', tr') \<and>
           containers self' = containers self \<and> runtime self' = runtime self \<and>
           harmless tr tr' \<and>
           (started \<longleftrightarrow> (\<forall>p\<in>{8090..8092}. port_free e ''0.0.0.0'' p))"
proof -
  obtain r self2 tr2 where al: "allocate_ports e self tr = (r, self2, tr2)"
    by (cases "allocate_ports e self tr") auto
  note fr = allocate_ports_frame [OF al]
  show ?thesis
  proof (cases r)
    case (Inl err)
    with al assms(1) have "start_containers e self tr = (Inr False, self2, tr2)"
      by (simp add: start_containers_def)
    moreover from fr(4) Inl have "\<not> (\<forall>p\<in>{8090..8092}. port_free e ''0.0.0.0'' p)" by simp
    ultimately show ?thesis using fr(1,2,3) by auto
  next
    case (Inr u)
    from fr(3) assms(1) have rt2: "runtime self2 = Some rt" by simp
    obtain ex tr3 where ce: "check_containers_exist e self2 tr2 = (ex, tr3)"
      by (cases "check_containers_exist e self2 tr2")
    with check_containers_exist_healthy [OF rt2 assms(3), of tr2]
    have "ex" "harmless tr2 tr3" by simp_all
    with ce have "start_podman_containers e self2 tr2 = (True, self2, tr3)"
      by (simp add: start_podman_containers_def)
    with al Inr assms(1,2) rt2 have "start_containers e self tr = (Inr True, self2, tr3)"
      by (simp add: start_containers_def)
    moreover from fr(1) \<open>harmless tr2 tr3\<close> have "harmless tr tr3" by (rule harmless_trans)
    moreover from fr(4) Inr have "\<forall>p\<in>{8090..8092}. port_free e ''0.0.0.0'' p" by simp
    ultimately show ?thesis using fr(2,3) by auto
  qed
qed

text \<open>
  Claim C7. \<open>cleanup\<close> returns without raising for every host, every orchestrator
  object and every history: whatever a command does, and whether or not a runtime was
  detected. With no runtime it runs no command; under Podman with no started container it
  runs only the removal of the pod.
\<close>

theorem C7_cleanup_completes:
  "(\<exists>tr'. cleanup e self tr = (Inr (), tr')) \<and>
   (runtime self = None \<longrightarrow> cleanup e self tr = (Inr (), tr)) \<and>
   (\<forall>rt. runtime self = Some rt \<and> rt_name rt = ''podman'' \<and> containers self = [] \<longrightarrow>
      cleanup e self tr = (Inr (), tr @ [Run [''podman'', ''pod'', ''rm'', project_name self]]))"
proof (intro conjI allI impI)
  show "\<exists>tr'. cleanup e self tr = (Inr (), tr')"
    by (auto simp: cleanup_def split: prod.splits sum.splits)
  show "cleanup e self tr = (Inr (), tr)" if "runtime self = None"
    using that by (simp add: cleanup_def cleanup_body_def)
  show "cleanup e self tr = (Inr (), tr @ [Run [''podman'', ''pod'', ''rm'', project_name self]])"
    if "runtime self = Some rt \<and> rt_name rt = ''podman'' \<and> containers self = []" for rt
    using that by (simp add: cleanup_def cleanup_body_def subprocess_run_def split: sum.splits)
qed

subsection \<open>The orchestrator on concrete hosts\<close>

lemma listing_names:
  "str_split (str_strip names_listing) newline = [''test-postgres'', ''test-mongo'']"
  by (simp add: names_listing_def str_strip_def str_split_def newline_def is_space_def)

lemma container_host_healthy:
  "rt_command rt = cmd \<Longrightarrow> containers_healthy (container_host cmd taken) rt"
  unfolding containers_healthy_def container_host_def
  by (simp add: listing_names)

lemma container_host_probe:
  "probe (container_host cmd taken) host port =
     (if port < 0 \<or> 65535 < port then Inl (OverflowError ''bind(): port must be 0-65535.'')
      else Inr (port \<notin> set taken))"
  by (simp add: probe_def is_port_available_def socket_bind_def container_host_def)

lemma start_containers_conflict:
  assumes "runtime self = Some rt" "\<not> (\<forall>p\<in>{8090..8092}. port_free e ''0.0.0.0'' p)"
  shows "fst (start_containers e self tr) = Inr False"
proof -
  obtain r self2 tr2 where al: "allocate_ports e self tr = (r, self2, tr2)"
    by (cases "allocate_ports e self tr") auto
  from allocate_ports_frame(4) [OF al] assms(2) obtain err where "r = Inl err"
    by (cases r) auto
  with al assms(1) show ?thesis by (simp add: start_containers_def)
qed

lemma docker_restart:
  "start_containers (container_host ''docker'' []) started_docker [] =
     (Inr False, started_docker,
      [Bind ''0.0.0.0'' 8090, Bind ''0.0.0.0'' 8091, Bind ''0.0.0.0'' 8092,
       RunEnv [''docker-compose'', ''-f'', ''docker-compose.test.yml'', ''up'', ''--build'', ''-d'']
              [(''APP_PORT'', ''8090''), (''POSTGRES_PORT'', ''8091''),
               (''MONGO_PORT'', ''8092''), (''HTTP_SERVER_PORT'', ''8090'')]])"
proof -
  let ?h = "container_host ''docker'' []"
  have chk: "check_sequential_port_block 8090 3 ''0.0.0.0'' ?h [] =
      (Inr \<lparr>available = True, requested_range = (8090, 8092), busy_ports = [],
            error_message = None\<rparr>,
       [Bind ''0.0.0.0'' 8090, Bind ''0.0.0.0'' 8091, Bind ''0.0.0.0'' 8092])"
    by (simp add: check_sequential_port_block_def Let_def py_range_small is_port_available_probe
          container_host_probe)
  have al: "allocate_ports ?h started_docker [] =
      (Inr (), started_docker,
       [Bind ''0.0.0.0'' 8090, Bind ''0.0.0.0'' 8091, Bind ''0.0.0.0'' 8092])"
    by (simp add: allocate_ports_def Let_def length_services chk port_mapping_block
          started_docker_def new_orchestrator_def)
  have vars: "get_port_env_vars started_docker =
      [(''APP_PORT'', ''8090''), (''POSTGRES_PORT'', ''8091''),
       (''MONGO_PORT'', ''8092''), (''HTTP_SERVER_PORT'', ''8090'')]"
    by (simp add: get_port_env_vars_def started_docker_def new_orchestrator_def dict_set_def
          str_upper_def upper_char_def str_def decimal_numeral digit_char_def)
  have ws: "str_split_ws ''docker-compose'' = [''docker-compose'']"
    by (simp add: str_split_ws_def is_space_def)
  have rt: "runtime started_docker = Some docker_runtime"
    "compose_file started_docker = ''docker-compose.test.yml''"
    by (simp_all add: started_docker_def new_orchestrator_def)
  have sc: "start_compose_containers ?h started_docker
        [Bind ''0.0.0.0'' 8090, Bind ''0.0.0.0'' 8091, Bind ''0.0.0.0'' 8092] =
      (False, started_docker,
       [Bind ''0.0.0.0'' 8090, Bind ''0.0.0.0'' 8091, Bind ''0.0.0.0'' 8092,
        RunEnv [''docker-compose'', ''-f'', ''docker-compose.test.yml'', ''up'', ''--build'', ''-d'']
              [(''APP_PORT'', ''8090''), (''POSTGRES_PORT'', ''8091''),
               (''MONGO_PORT'', ''8092''), (''HTTP_SERVER_PORT'', ''8090'')]])"
    by (simp add: start_compose_containers_def rt docker_runtime_def ws vars Let_def
          subprocess_run_env_def container_host_def)
  show ?thesis
    by (simp add: start_containers_def rt al sc docker_runtime_def)
qed

text \<open>
  The host after a first start under Podman: the pod publishes the ports of the two
  services, so 8091 and 8092 are bound, and no inspection tool names their owner.
\<close>

lemma container_host_unknown:
  "get_process_using_port port (container_host cmd taken) tr =
     (Some ''unknown process'',
      tr @ [Run [''lsof'', ''-i'', '':'' @ str port, ''-P'', ''-n''],
            Run [''netstat'', ''-tulpn''], Run [''ss'', ''-tulpn'']])"
  by (simp add: get_process_using_port_def process_lookup_def container_host_def try_lsof_def
      try_netstat_def try_ss_def subprocess_run_def gives_up_def)

lemma podman_block_check:
  "check_sequential_port_block 8090 3 ''0.0.0.0'' (container_host ''podman'' [8091, 8092]) [] =
     (Inr \<lparr>available = False, requested_range = (8090, 8092),
           busy_ports = [\<lparr>info_port = 8091, info_available = False,
                           process_info = Some ''unknown process''\<rparr>,
                         \<lparr>info_port = 8092, info_available = False,
                           process_info = Some ''unknown process''\<rparr>],
           error_message = Some (''Ports 8090-8092: 8091 already in use (unknown process), 8092 already in use (unknown process)'')\<rparr>,
      [Bind ''0.0.0.0'' 8090, Bind ''0.0.0.0'' 8091,
       Run [''lsof'', ''-i'', '':8091'', ''-P'', ''-n''],
       Run [''netstat'', ''-tulpn''], Run [''ss'', ''-tulpn''],
       Bind ''0.0.0.0'' 8092,
       Run [''lsof'', ''-i'', '':8092'', ''-P'', ''-n''],
       Run [''netstat'', ''-tulpn''], Run [''ss'', ''-tulpn'']])"
  by (simp add: check_sequential_port_block_def Let_def py_range_small is_port_available_probe
        container_host_probe container_host_unknown busy_message_plural busy_port_str_def
        truthy_def str_def decimal_numeral digit_char_def)

lemma podman_message_mentions:
  "sublist ''already in use''
     (''Ports 8090-8092: 8091 already in use (unknown process), 8092 already in use (unknown process)'')"
proof -
  have "''Ports 8090-8092: 8091 already in use (unknown process), 8092 already in use (unknown process)'' =
      ''Ports 8090-8092: 8091 '' @ ''already in use'' @
      '' (unknown process), 8092 already in use (unknown process)''"
    by simp
  then show ?thesis by (simp only: sublist_appendI)
qed

lemma podman_reentry_aborts:
  "start_containers (container_host ''podman'' [8091, 8092]) started_podman [] =
     (Inr False, started_podman,
      [Bind ''0.0.0.0'' 8090, Bind ''0.0.0.0'' 8091,
       Run [''lsof'', ''-i'', '':8091'', ''-P'', ''-n''],
       Run [''netstat'', ''-tulpn''], Run [''ss'', ''-tulpn''],
       Bind ''0.0.0.0'' 8092,
       Run [''lsof'', ''-i'', '':8092'', ''-P'', ''-n''],
       Run [''netstat'', ''-tulpn''], Run [''ss'', ''-tulpn'']])"
proof -
  let ?h = "container_host ''podman'' [8091, 8092]"
  let ?msg = "''Ports 8090-8092: 8091 already in use (unknown process), 8092 already in use (unknown process)''"
  let ?tr = "[Bind ''0.0.0.0'' 8090, Bind ''0.0.0.0'' 8091,
       Run [''lsof'', ''-i'', '':8091'', ''-P'', ''-n''],
       Run [''netstat'', ''-tulpn''], Run [''ss'', ''-tulpn''],
       Bind ''0.0.0.0'' 8092,
       Run [''lsof'', ''-i'', '':8092'', ''-P'', ''-n''],
       Run [''netstat'', ''-tulpn''], Run [''ss'', ''-tulpn'']]"
  have ex: "allocate_except (RuntimeError ?msg) ?h started_podman ?tr =
      (Inl (RuntimeError (''Unable to allocate sequential ports: '' @ ?msg)), started_podman, ?tr)"
    unfolding allocate_except_def exn_str.simps
    by (simp only: podman_message_mentions if_True)
  have al: "allocate_ports ?h started_podman [] =
      (Inl (RuntimeError (''Unable to allocate sequential ports: '' @ ?msg)), started_podman, ?tr)"
    unfolding allocate_ports_def Let_def length_services
    by (simp only: podman_block_check) (simp add: ex)
  have rt: "runtime started_podman = Some podman_runtime"
    by (simp add: started_podman_def)
  show ?thesis
    unfolding start_containers_def by (simp add: rt al)
qed

lemma first_pod_cmd:
  "pod_cmd started_podman 8091 8092 =
     [''podman'', ''pod'', ''create'', ''--name'', ''test-env'',
      ''-p'', ''8091:8091'', ''-p'', ''8092:8092'']"
  by (simp add: pod_cmd_def started_podman_def new_orchestrator_def str_def decimal_numeral
        digit_char_def)

text \<open>Podman, both containers healthy, the three ports free: the short-circuit is reached.\<close>

lemma podman_reentry_free_ports:
  "runtime started_podman = Some podman_runtime \<and> rt_name podman_runtime = ''podman'' \<and>
   containers_healthy (container_host ''podman'' []) podman_runtime \<and>
   port_free (container_host ''podman'' []) ''0.0.0.0'' 8090 \<and>
   port_free (container_host ''podman'' []) ''0.0.0.0'' 8091 \<and>
   port_free (container_host ''podman'' []) ''0.0.0.0'' 8092 \<and>
   fst (start_containers (container_host ''podman'' []) started_podman []) = Inr True"
proof -
  have rt: "runtime started_podman = Some podman_runtime" by (simp add: started_podman_def)
  have name: "rt_name podman_runtime = ''podman''" by (simp add: podman_runtime_def)
  have healthy: "containers_healthy (container_host ''podman'' []) podman_runtime"
    by (rule container_host_healthy) (simp add: podman_runtime_def)
  have free: "\<forall>p\<in>{8090..8092}. port_free (container_host ''podman'' []) ''0.0.0.0'' p"
    by (simp add: port_free_def container_host_probe)
  from start_containers_podman_reentry [OF rt name healthy, of "[]"] free
  have "fst (start_containers (container_host ''podman'' []) started_podman []) = Inr True"
    by auto
  moreover have "port_free (container_host ''podman'' []) ''0.0.0.0'' 8090"
    "port_free (container_host ''podman'' []) ''0.0.0.0'' 8091"
    "port_free (container_host ''podman'' []) ''0.0.0.0'' 8092"
    by (simp_all add: port_free_def container_host_probe)
  ultimately show ?thesis using rt name healthy by blast
qed

text \<open>
  Claim C1: for every orchestrator whose required containers \<open>test-postgres\<close> and
  \<open>test-mongo\<close> already exist and pass their health checks, a second call to
  \<open>start_containers\<close> removes and recreates no container, short-circuits to the healthy
  state and returns success. The code does not do this. Under Podman the first start
  creates the pod with \<open>-p 8091:8091 -p 8092:8092\<close>; with both containers healthy (the
  existence check of \<open>_start_podman_containers\<close> would answer \<open>True\<close>) and those
  two ports held by the pod, the second call probes 8090, 8091 and 8092, asks
  \<open>lsof\<close>, \<open>netstat\<close> and \<open>ss\<close> about the two busy ports, and returns
  \<open>False\<close> from the port check, before the existence check is reached. Under Docker,
  with both containers healthy and the three ports free, no existence check is made at
  all: the call runs \<open>docker-compose -f docker-compose.test.yml up --build -d\<close> and
  returns what that command gives, here \<open>False\<close>.
\<close>

theorem C1_reentry_aborts:
  "pod_cmd started_podman 8091 8092 =
     [''podman'', ''pod'', ''create'', ''--name'', ''test-env'',
      ''-p'', ''8091:8091'', ''-p'', ''8092:8092''] \<and>
   runtime started_podman = Some podman_runtime \<and>
   containers_healthy (container_host ''podman'' [8091, 8092]) podman_runtime \<and>
   check_containers_exist (container_host ''podman'' [8091, 8092]) started_podman [] =
     (True,
      [Run [''podman'', ''ps'', ''--format'', ''{{.Names}}''],
       Run [''podman'', ''exec'', ''test-postgres'', ''pg_isready'', ''-U'', ''user'', ''-d'', ''testdb''],
       Run [''podman'', ''exec'', ''test-mongo'', ''mongosh'', ''--eval'',
            ''db.adminCommand('' @ squote @ ''ping'' @ squote @ '')'']]) \<and>
   start_containers (container_host ''podman'' [8091, 8092]) started_podman [] =
     (Inr False, started_podman,
      [Bind ''0.0.0.0'' 8090, Bind ''0.0.0.0'' 8091,
       Run [''lsof'', ''-i'', '':8091'', ''-P'', ''-n''],
       Run [''netstat'', ''-tulpn''], Run [''ss'', ''-tulpn''],
       Bind ''0.0.0.0'' 8092,
       Run [''lsof'', ''-i'', '':8092'', ''-P'', ''-n''],
       Run [''netstat'', ''-tulpn''], Run [''ss'', ''-tulpn'']]) \<and>
   runtime started_docker = Some docker_runtime \<and>
   containers_healthy (container_host ''docker'' []) docker_runtime \<and>
   start_containers (container_host ''docker'' []) started_docker [] =
     (Inr False, started_docker,
      [Bind ''0.0.0.0'' 8090, Bind ''0.0.0.0'' 8091, Bind ''0.0.0.0'' 8092,
       RunEnv [''docker-compose'', ''-f'', ''docker-compose.test.yml'', ''up'', ''--build'', ''-d'']
              [(''APP_PORT'', ''8090''), (''POSTGRES_PORT'', ''8091''),
               (''MONGO_PORT'', ''8092''), (''HTTP_SERVER_PORT'', ''8090'')]])"
proof (intro conjI)
  show "pod_cmd started_podman 8091 8092 =
     [''podman'', ''pod'', ''create'', ''--name'', ''test-env'',
      ''-p'', ''8091:8091'', ''-p'', ''8092:8092'']"
    by (rule first_pod_cmd)
  show rt: "runtime started_podman = Some podman_runtime"
    by (simp add: started_podman_def)
  show "containers_healthy (container_host ''podman'' [8091, 8092]) podman_runtime"
    by (rule container_host_healthy) (simp add: podman_runtime_def)
  show "check_containers_exist (container_host ''podman'' [8091, 8092]) started_podman [] =
     (True,
      [Run [''podman'', ''ps'', ''--format'', ''{{.Names}}''],
       Run [''podman'', ''exec'', ''test-postgres'', ''pg_isready'', ''-U'', ''user'', ''-d'', ''testdb''],
       Run [''podman'', ''exec'', ''test-mongo'', ''mongosh'', ''--eval'',
            ''db.adminCommand('' @ squote @ ''ping'' @ squote @ '')'']])"
    by (simp add: check_containers_exist_def rt podman_runtime_def subprocess_run_def
          container_host_def listing_names required_containers_def Let_def
          check_postgres_health_def check_mongo_health_def health_check_def)
  show "start_containers (container_host ''podman'' [8091, 8092]) started_podman [] =
     (Inr False, started_podman,
      [Bind ''0.0.0.0'' 8090, Bind ''0.0.0.0'' 8091,
       Run [''lsof'', ''-i'', '':8091'', ''-P'', ''-n''],
       Run [''netstat'', ''-tulpn''], Run [''ss'', ''-tulpn''],
       Bind ''0.0.0.0'' 8092,
       Run [''lsof'', ''-i'', '':8092'', ''-P'', ''-n''],
       Run [''netstat'', ''-tulpn''], Run [''ss'', ''-tulpn'']])"
    by (rule podman_reentry_aborts)
  show "runtime started_docker = Some docker_runtime"
    by (simp add: started_docker_def)
  show "containers_healthy (container_host ''docker'' []) docker_runtime"
    by (rule container_host_healthy) (simp add: docker_runtime_def)
  show "start_containers (container_host ''docker'' []) started_docker [] =
     (Inr False, started_docker,
      [Bind ''0.0.0.0'' 8090, Bind ''0.0.0.0'' 8091, Bind ''0.0.0.0'' 8092,
       RunEnv [''docker-compose'', ''-f'', ''docker-compose.test.yml'', ''up'', ''--build'', ''-d'']
              [(''APP_PORT'', ''8090''), (''POSTGRES_PORT'', ''8091''),
               (''MONGO_PORT'', ''8092''), (''HTTP_SERVER_PORT'', ''8090'')]])"
    by (rule docker_restart)
qed

text \<open>Claim C7, witness: no runtime; Podman with no container; Podman with one container
  of two, on a host where the containers are gone.\<close>

theorem C7_cleanup_completes_witness:
  "cleanup demo_host new_orchestrator [] = (Inr (), []) \<and>
   cleanup gone_host (started_podman\<lparr>containers := []\<rparr>) [] =
     (Inr (), [Run [''podman'', ''pod'', ''rm'', ''test-env'']]) \<and>
   cleanup gone_host (started_podman\<lparr>containers := [''test-postgres'']\<rparr>) [] =
     (Inr (), [Run [''podman'', ''stop'', ''test-postgres''], Run [''podman'', ''rm'', ''test-postgres''],
               Run [''podman'', ''pod'', ''rm'', ''test-env'']])"
proof (intro conjI)
  have "runtime new_orchestrator = None" by (simp add: new_orchestrator_def)
  with C7_cleanup_completes [of demo_host new_orchestrator "[]"]
  show "cleanup demo_host new_orchestrator [] = (Inr (), [])" by simp
  have "runtime (started_podman\<lparr>containers := []\<rparr>) = Some podman_runtime \<and>
        rt_name podman_runtime = ''podman'' \<and> containers (started_podman\<lparr>containers := []\<rparr>) = []"
    by (simp add: started_podman_def podman_runtime_def)
  with C7_cleanup_completes [of gone_host "started_podman\<lparr>containers := []\<rparr>" "[]"]
  have "cleanup gone_host (started_podman\<lparr>containers := []\<rparr>) [] =
     (Inr (), [] @ [Run [''podman'', ''pod'', ''rm'', project_name (started_podman\<lparr>containers := []\<rparr>)]])"
    by blast
  then show "cleanup gone_host (started_podman\<lparr>containers := []\<rparr>) [] =
     (Inr (), [Run [''podman'', ''pod'', ''rm'', ''test-env'']])"
    by (simp add: started_podman_def new_orchestrator_def)
  show "cleanup gone_host (started_podman\<lparr>containers := [''test-postgres'']\<rparr>) [] =
     (Inr (), [Run [''podman'', ''stop'', ''test-postgres''], Run [''podman'', ''rm'', ''test-postgres''],
               Run [''podman'', ''pod'', ''rm'', ''test-env'']])"
    by (simp add: cleanup_def cleanup_body_def started_podman_def new_orchestrator_def
          podman_runtime_def gone_host_def subprocess_run_def)
qed

section \<open>Properties of the port assignment registry\<close>

lemma save_assignments_fields:
  "base_port (save_assignments pm) = base_port pm"
  "current_port (save_assignments pm) = current_port pm"
  "assigned_ports (save_assignments pm) = assigned_ports pm"
  by (simp_all add: save_assignments_def)

lemma document_ok_save:
  "document_ok lo (port_file (save_assignments pm)) \<longleftrightarrow>
     (\<forall>s a. assigned_ports pm s = Some a \<longrightarrow> lo \<le> entry_port a \<and> entry_port a + 1 \<le> current_port pm)"
  by (simp add: save_assignments_def document_ok_def)

lemma session_invariant_load:
  assumes "document_ok lo (port_file pm)" and "lo \<le> base_port pm"
    and "assigned_ports pm = Map.empty" and "current_port pm = base_port pm"
  shows "session_invariant lo (load_assignments pm)"
  using assms
  by (fastforce simp: load_assignments_def session_invariant_def document_ok_def Let_def
           split: port_file_content.splits option.splits)

lemma port_file_load: "port_file (load_assignments pm) = port_file pm"
  by (simp add: load_assignments_def Let_def split: port_file_content.splits)

lemma base_port_load: "base_port (load_assignments pm) = base_port pm"
  by (simp add: load_assignments_def Let_def split: port_file_content.splits)

lemma init_Inr:
  assumes "init arg envb f = Inr pm"
  obtains b where "pm = load_assignments \<lparr>base_port = b, current_port = b, assigned_ports = Map.empty,
                           port_file = f, writes = 0\<rparr>"
  using assms by (auto simp: init_def Let_def split: option.splits if_splits sum.splits)

lemma init_invariant:
  assumes "init arg envb f = Inr pm" and "document_ok lo f" and "lo \<le> base_port pm"
  shows "session_invariant lo pm \<and> document_ok lo (port_file pm)"
proof -
  from assms(1) obtain b where pm: "pm = load_assignments \<lparr>base_port = b, current_port = b,
      assigned_ports = Map.empty, port_file = f, writes = 0\<rparr>"
    by (rule init_Inr)
  have "lo \<le> b" using assms(3) by (simp add: pm base_port_load)
  then have "session_invariant lo pm"
    unfolding pm using assms(2) by (intro session_invariant_load) simp_all
  moreover have "document_ok lo (port_file pm)"
    using assms(2) by (simp add: pm port_file_load)
  ultimately show ?thesis by simp
qed

lemma assign_port_invariant:
  assumes "session_invariant lo pm" and "document_ok lo (port_file pm)"
  shows "session_invariant lo (snd (assign_port s p t pm)) \<and>
         document_ok lo (port_file (snd (assign_port s p t pm)))"
  using assms
  by (fastforce simp: assign_port_def Let_def session_invariant_def document_ok_save
        save_assignments_fields split: option.splits if_splits)

lemma release_port_invariant:
  assumes "session_invariant lo pm" and "document_ok lo (port_file pm)"
  shows "session_invariant lo (snd (release_port s pm)) \<and>
         document_ok lo (port_file (snd (release_port s pm)))"
  using assms
  by (auto simp: release_port_def session_invariant_def document_ok_save
        save_assignments_fields split: option.splits if_splits)

lemma reset_assignments_invariant:
  assumes "session_invariant lo pm"
  shows "session_invariant lo (reset_assignments pm) \<and>
         document_ok lo (port_file (reset_assignments pm))"
  using assms
  by (simp add: reset_assignments_def session_invariant_def document_ok_save
        save_assignments_fields)

lemma reachable_invariant:
  "reachable lo pm \<Longrightarrow> session_invariant lo pm \<and> document_ok lo (port_file pm)"
proof (induction rule: reachable.induct)
  case (first_session base_port_arg env_base f pm lo)
  then have "document_ok lo f" by (auto simp: document_ok_def)
  with first_session show ?case by (intro init_invariant)
next
  case (after_assign lo pm service_name purpose now)
  then show ?case by (intro assign_port_invariant) simp_all
next
  case (after_release lo pm service_name)
  then show ?case by (intro release_port_invariant) simp_all
next
  case (after_reset lo pm)
  then show ?case by (intro reset_assignments_invariant) simp_all
next
  case (next_session lo pm base_port_arg env_base pm')
  then show ?case using init_invariant by blast
qed

lemma init_loads:
  assumes "init base_port_arg env_base f = Inr pm'"
  shows "port_file pm' = f"
    and "current_port pm' =
           (case f of
              Stored d \<Rightarrow> (case doc_next_port d of
                             Some n \<Rightarrow> max n (base_port pm')
                           | None \<Rightarrow> base_port pm')
            | _ \<Rightarrow> base_port pm')"
    and "assigned_ports pm' =
           (case f of
              Stored d \<Rightarrow> (case doc_assignments d of Some m \<Rightarrow> m | None \<Rightarrow> Map.empty)
            | _ \<Rightarrow> Map.empty)"
proof -
  from assms obtain b where pm': "pm' = load_assignments \<lparr>base_port = b, current_port = b,
      assigned_ports = Map.empty, port_file = f, writes = 0\<rparr>"
    by (rule init_Inr)
  show "port_file pm' = f" by (simp add: pm' port_file_load)
  show "current_port pm' =
           (case f of
              Stored d \<Rightarrow> (case doc_next_port d of
                             Some n \<Rightarrow> max n (base_port pm')
                           | None \<Rightarrow> base_port pm')
            | _ \<Rightarrow> base_port pm')"
    by (simp add: pm' load_assignments_def Let_def max_def
          split: port_file_content.splits option.splits)
  show "assigned_ports pm' =
           (case f of
              Stored d \<Rightarrow> (case doc_assignments d of Some m \<Rightarrow> m | None \<Rightarrow> Map.empty)
            | _ \<Rightarrow> Map.empty)"
    by (simp add: pm' load_assignments_def Let_def
          split: port_file_content.splits option.splits)
qed

text \<open>
  Claim C8, as the code has it. In every state a sequence of sessions reaches, the cursor
  is at least the base port and lies above every assigned port, and every assigned port
  is at least \<open>lo\<close>, the lowest base port any of the sessions ran under. When the
  base port was never raised (\<open>lo\<close> is the current base port) this is the invariant
  of the specification. A construction that returns, from whatever the file holds, leaves
  the file as it was and clamps the cursor only: the cursor is the larger of the
  \<open>next_port\<close> of the file and the base port, so a cursor below the base port is
  raised to it and no cursor is lowered, and it is the base port when the file is absent,
  unreadable or has no \<open>next_port\<close>; the assignments are exactly those of the file,
  none when the file is absent, unreadable or has no \<open>assignments\<close>.
\<close>

theorem C8_registry_invariant:
  assumes "reachable lo pm"
  shows "base_port pm \<le> current_port pm \<and>
         (\<forall>s a. assigned_ports pm s = Some a \<longrightarrow> entry_port a + 1 \<le> current_port pm) \<and>
         (\<forall>s a. assigned_ports pm s = Some a \<longrightarrow> lo \<le> entry_port a) \<and>
         (lo = base_port pm \<longrightarrow> registry_invariant pm) \<and>
         (init base_port_arg env_base f = Inr pm' \<longrightarrow>
            port_file pm' = f \<and>
            current_port pm' =
              (case f of
                 Stored d \<Rightarrow> (case doc_next_port d of
                                Some n \<Rightarrow> max n (base_port pm')
                              | None \<Rightarrow> base_port pm')
               | _ \<Rightarrow> base_port pm') \<and>
            assigned_ports pm' =
              (case f of
                 Stored d \<Rightarrow> (case doc_assignments d of Some m \<Rightarrow> m | None \<Rightarrow> Map.empty)
               | _ \<Rightarrow> Map.empty))"
proof -
  have inv: "base_port pm \<le> current_port pm \<and>
         (\<forall>s a. assigned_ports pm s = Some a \<longrightarrow> entry_port a + 1 \<le> current_port pm) \<and>
         (\<forall>s a. assigned_ports pm s = Some a \<longrightarrow> lo \<le> entry_port a) \<and>
         (lo = base_port pm \<longrightarrow> registry_invariant pm)"
    using reachable_invariant [OF assms]
    by (auto simp: session_invariant_def registry_invariant_def)
  have "port_file pm' = f \<and>
        current_port pm' =
              (case f of
                 Stored d \<Rightarrow> (case doc_next_port d of
                                Some n \<Rightarrow> max n (base_port pm')
                              | None \<Rightarrow> base_port pm')
               | _ \<Rightarrow> base_port pm') \<and>
        assigned_ports pm' =
              (case f of
                 Stored d \<Rightarrow> (case doc_assignments d of Some m \<Rightarrow> m | None \<Rightarrow> Map.empty)
               | _ \<Rightarrow> Map.empty)"
    if "init base_port_arg env_base f = Inr pm'"
    using init_loads [OF that] by simp
  with inv show ?thesis by blast
qed

subsection \<open>Two sessions\<close>

lemma session_4000_eq:
  "session_4000 = \<lparr>base_port = 4000, current_port = 4001,
      assigned_ports = [''web'' \<mapsto> \<lparr>entry_port = 4000, entry_purpose = ''http'', entry_assigned_at = ''2024-01-01T00:00:00''\<rparr>],
      port_file = Stored \<lparr>doc_base_port = Some 4000, doc_next_port = Some 4001,
         doc_assignments = Some [''web'' \<mapsto> \<lparr>entry_port = 4000, entry_purpose = ''http'', entry_assigned_at = ''2024-01-01T00:00:00''\<rparr>]\<rparr>,
      writes = 1\<rparr>"
  by (simp add: session_4000_def assign_port_def save_assignments_def Let_def)

lemma session_5000_eq:
  "session_5000 = \<lparr>base_port = 5000, current_port = 5000,
      assigned_ports = [''web'' \<mapsto> \<lparr>entry_port = 4000, entry_purpose = ''http'', entry_assigned_at = ''2024-01-01T00:00:00''\<rparr>],
      port_file = Stored \<lparr>doc_base_port = Some 4000, doc_next_port = Some 4001,
         doc_assignments = Some [''web'' \<mapsto> \<lparr>entry_port = 4000, entry_purpose = ''http'', entry_assigned_at = ''2024-01-01T00:00:00''\<rparr>]\<rparr>,
      writes = 0\<rparr>"
  by (simp add: session_5000_def session_4000_eq load_assignments_def Let_def)

lemma reachable_session_4000: "reachable 4000 session_4000"
proof -
  have "init (Some 4000) None Absent = Inr \<lparr>base_port = 4000, current_port = 4000,
      assigned_ports = Map.empty, port_file = Absent, writes = 0\<rparr>"
    by (simp add: init_def load_assignments_def)
  then have "reachable 4000 \<lparr>base_port = 4000, current_port = 4000,
      assigned_ports = Map.empty, port_file = Absent, writes = 0\<rparr>"
    by (rule first_session) simp_all
  then show ?thesis unfolding session_4000_def by (rule after_assign)
qed

lemma reachable_session_5000: "reachable 4000 session_5000"
proof -
  have "init (Some 5000) None (port_file session_4000) = Inr session_5000"
    by (simp add: init_def session_5000_def)
  with reachable_session_4000 show ?thesis
    by (rule next_session) (simp add: session_5000_eq)
qed

lemma init_3000:
  "init (Some 3000) None (port_file session_4000) =
     Inr (session_4000\<lparr>base_port := 3000, writes := 0\<rparr>)"
  by (simp add: init_def load_assignments_def Let_def session_4000_eq)

lemma init_5000: "init (Some 5000) None (port_file session_4000) = Inr session_5000"
  by (simp add: init_def session_5000_def)

text \<open>
  Claim C8 as stated fails on load: a session under base port 5000 that starts from the
  file a session under base port 4000 wrote keeps the assignment of port 4000, which is
  below its base port.
\<close>

theorem C8_counterexample:
  "reachable 4000 session_5000 \<and> \<not> registry_invariant session_5000"
proof -
  have "\<not> registry_invariant session_5000"
    by (auto simp: registry_invariant_def session_5000_eq)
  with reachable_session_5000 show ?thesis by simp
qed

text \<open>
  Claim C8, witness: the state after one assignment under base port 4000, and two
  constructions from the file it wrote. Under base port 5000 the cursor 4001 is raised to
  5000; under base port 3000 it stays 4001; both keep the assignment of port 4000.
\<close>

theorem C8_registry_invariant_witness:
  "reachable 4000 session_4000 \<and> registry_invariant session_4000 \<and>
   init (Some 5000) None (port_file session_4000) = Inr session_5000 \<and>
   current_port session_4000 = 4001 \<and> current_port session_5000 = 5000 \<and>
   assigned_ports session_5000 = assigned_ports session_4000 \<and>
   init (Some 3000) None (port_file session_4000) =
     Inr (session_4000\<lparr>base_port := 3000, writes := 0\<rparr>) \<and>
   current_port (session_4000\<lparr>base_port := 3000, writes := 0\<rparr>) = 4001"
proof -
  note claim = C8_registry_invariant [OF reachable_session_4000, of "Some 5000" None "port_file session_4000" session_5000]
  from claim have "registry_invariant session_4000" by (simp add: session_4000_eq)
  moreover from claim init_5000 have "current_port session_5000 = 5000"
    by (simp add: session_4000_eq session_5000_eq)
  moreover from claim init_5000 have "assigned_ports session_5000 = assigned_ports session_4000"
    by (simp add: session_4000_eq)
  moreover have "current_port session_4000 = 4001"
    "current_port (session_4000\<lparr>base_port := 3000, writes := 0\<rparr>) = 4001"
    by (simp_all add: session_4000_eq)
  ultimately show ?thesis using reachable_session_4000 init_5000 init_3000 by simp
qed

subsection \<open>Assigning twice\<close>

text \<open>
  Claim C4. When \<open>assign_port\<close> has returned port \<open>p\<close> for a service, a second call
  for the same service (whatever its purpose and whenever it is made) returns \<open>p\<close> again
  and leaves the whole object as it was: the cursor, every assignment entry, the file and
  the number of writes.
\<close>

theorem C4_assign_port_idempotent:
  assumes "assign_port service_name purpose1 now1 pm = (p, pm1)"
  shows "assign_port service_name purpose2 now2 pm1 = (p, pm1)"
proof (cases "assigned_ports pm service_name")
  case None
  with assms have "assigned_ports pm1 service_name =
      Some \<lparr>entry_port = p, entry_purpose = purpose1, entry_assigned_at = now1\<rparr>"
    by (auto simp: assign_port_def Let_def save_assignments_def)
  then show ?thesis by (simp add: assign_port_def)
next
  case (Some a)
  with assms have "pm1 = pm" and "p = entry_port a"
    by (simp_all add: assign_port_def)
  with Some show ?thesis by (simp add: assign_port_def)
qed

text \<open>Claim C4, witness: the service \<open>web\<close> is assigned port 4000 twice.\<close>

theorem C4_assign_port_idempotent_witness:
  "assign_port ''web'' ''http'' ''2024-01-01T00:00:00'' fresh_4000 = (4000, session_4000) \<and>
   assign_port ''web'' ''again'' ''2024-01-02T00:00:00'' session_4000 = (4000, session_4000)"
proof -
  have first: "assign_port ''web'' ''http'' ''2024-01-01T00:00:00'' fresh_4000 = (4000, session_4000)"
    by (simp add: session_4000_def fresh_4000_def assign_port_def Let_def)
  from C4_assign_port_idempotent [OF first] first show ?thesis by simp
qed

subsection \<open>Releasing\<close>

text \<open>
  Claim C9. \<open>release_port\<close> returns whether the service had an assignment; afterwards
  the service has none; the base port, the cursor and the entry of every other service
  are as before. A removal is persisted by one write; without a removal nothing changes.
\<close>

theorem C9_release_port_frame:
  assumes "release_port service_name pm = (removed, pm')"
  shows "(removed \<longleftrightarrow> assigned_ports pm service_name \<noteq> None) \<and>
         assigned_ports pm' service_name = None \<and>
         base_port pm' = base_port pm \<and>
         current_port pm' = current_port pm \<and>
         (\<forall>other. other \<noteq> service_name \<longrightarrow> assigned_ports pm' other = assigned_ports pm other) \<and>
         (if removed then writes pm' = Suc (writes pm) else pm' = pm)"
  using assms
  by (auto simp: release_port_def save_assignments_def split: option.splits)

text \<open>Claim C9, witness: releasing \<open>web\<close> leaves the cursor at 4001.\<close>

theorem C9_release_port_frame_witness:
  "release_port ''web'' session_4000 =
     (True, \<lparr>base_port = 4000, current_port = 4001, assigned_ports = Map.empty,
             port_file = Stored \<lparr>doc_base_port = Some 4000, doc_next_port = Some 4001,
                                  doc_assignments = Some Map.empty\<rparr>,
             writes = 2\<rparr>) \<and>
   current_port session_4000 = 4001"
proof -
  have r: "release_port ''web'' session_4000 =
     (True, \<lparr>base_port = 4000, current_port = 4001, assigned_ports = Map.empty,
             port_file = Stored \<lparr>doc_base_port = Some 4000, doc_next_port = Some 4001,
                                  doc_assignments = Some Map.empty\<rparr>,
             writes = 2\<rparr>)"
    by (simp add: session_4000_def assign_port_def release_port_def save_assignments_def Let_def)
  from C9_release_port_frame [OF r] r show ?thesis by simp
qed

end
